theory Spec2Isabelle
  imports Main
begin

section \<open>The ledger entity and its wire form\<close>

text \<open>
  A Request is the object built by \<^verbatim>\<open>_convertRequestArrToObj\<close>: six named fields
  read from the six positions of the array the contract call returns. The contract's
  interface fixes the type of each position (three strings, a boolean, two addresses),
  so the wire form is a typed six-tuple and \<^verbatim>\<open>deepEqual\<close> on two decoded
  requests is equality of the six fields.
\<close>

type_synonym address = string

record request =
  requesterName :: string
  valentineName :: string
  customMessage :: string
  wasAccepted :: bool
  valentineAddress :: address
  requesterAddress :: address

type_synonym requestArr = "string \<times> string \<times> string \<times> bool \<times> address \<times> address"

definition NULL_ADDRESS :: address where
  "NULL_ADDRESS = ''0x0000000000000000000000000000000000000000''"

fun convertRequestArrToObj :: "requestArr \<Rightarrow> request" where
  "convertRequestArrToObj (a0, a1, a2, a3, a4, a5) =
     \<lparr> requesterName = a0, valentineName = a1, customMessage = a2,
       wasAccepted = a3, valentineAddress = a4, requesterAddress = a5 \<rparr>"

definition emptyRequestArr :: requestArr where
  "emptyRequestArr = ('''', '''', '''', False, NULL_ADDRESS, NULL_ADDRESS)"

definition doesRequestExist :: "request \<Rightarrow> bool" where
  "doesRequestExist r = (r \<noteq> convertRequestArrToObj emptyRequestArr)"

section \<open>The entity store\<close>

text \<open>
  Modelled from the spec: the class \<^verbatim>\<open>ValentineRequests\<close> (js/valentine_requests) is
  imported by the synchronizer and is not among the sources. Section 4.1 of the
  specification gives its operations: a mapping from address to Request that keeps
  insertion order; \<^verbatim>\<open>add\<close> fails with DuplicateKey when the key is present and
  otherwise appends; \<^verbatim>\<open>update\<close> fails with NotFound when the key is absent and
  otherwise changes the one named field; \<^verbatim>\<open>has\<close> is a pure lookup; \<^verbatim>\<open>getAll\<close>
  is the ordered snapshot; \<^verbatim>\<open>clearAll\<close> empties the mapping. Every mutation raises
  one change notification; the synchronizer's handler for it is modelled below.
\<close>

datatype store_error = DuplicateKey | NotFound

datatype field_update =
    SetRequesterName string
  | SetValentineName string
  | SetCustomMessage string
  | SetWasAccepted bool
  | SetValentineAddress address

fun set_field :: "field_update \<Rightarrow> request \<Rightarrow> request" where
  "set_field (SetRequesterName v) r = r\<lparr>requesterName := v\<rparr>"
| "set_field (SetValentineName v) r = r\<lparr>valentineName := v\<rparr>"
| "set_field (SetCustomMessage v) r = r\<lparr>customMessage := v\<rparr>"
| "set_field (SetWasAccepted v) r = r\<lparr>wasAccepted := v\<rparr>"
| "set_field (SetValentineAddress v) r = r\<lparr>valentineAddress := v\<rparr>"

definition store_has :: "address \<Rightarrow> request list \<Rightarrow> bool" where
  "store_has a st = (a \<in> set (map requesterAddress st))"

definition store_add :: "request \<Rightarrow> request list \<Rightarrow> store_error + request list" where
  "store_add r st =
     (if store_has (requesterAddress r) st then Inl DuplicateKey else Inr (st @ [r]))"

definition store_update ::
  "address \<Rightarrow> field_update \<Rightarrow> request list \<Rightarrow> store_error + request list" where
  "store_update a f st =
     (if store_has a st
      then Inr (map (\<lambda>r. if requesterAddress r = a then set_field f r else r) st)
      else Inl NotFound)"

definition store_getAll :: "request list \<Rightarrow> request list" where
  "store_getAll st = st"

definition store_clearAll :: "request list \<Rightarrow> request list" where
  "store_clearAll st = []"

section \<open>The contract binding, the environment and the synchronizer state\<close>

text \<open>
  The contract binding is external: each remote call either rejects, with the text the
  template literal \<^verbatim>\<open>`${err}`\<close> would give for the rejection, or returns a value.
\<close>

record contract =
  numRequesters :: "string + nat"
  getRequestByIndex :: "nat \<Rightarrow> string + requestArr"
  getRequestByRequesterAddress :: "address \<Rightarrow> string + requestArr"

datatype exn = Rejected string | StoreFailure store_error | TypeError | AssertionFailed

datatype event_kind = LogValentineRequestCreated | LogRequestAccepted

text \<open>
  The effects an observer can see, in program order: store operations, the
  \<^verbatim>\<open>valentineRequestsUpdated\<close> event the store's change notification is re-emitted as,
  calls of \<^verbatim>\<open>_onUpdatedFn\<close>, the registration and stopping of event watchers, and
  console output.
\<close>

datatype action =
    StoreClearAll
  | StoreAdd request
  | StoreUpdate address field_update
  | Emit string
  | OnUpdatedFn
  | StopWatching event_kind nat
  | Watch event_kind nat
  | ConsoleLog

text \<open>
  The fields of \<^verbatim>\<open>BlockchainState\<close>. \<^verbatim>\<open>err\<close> is a JavaScript string or null.
  A watcher is the filter object a contract event call returns, named by a number;
  \<^verbatim>\<open>activeWatchers\<close> are the filters that are watching, \<^verbatim>\<open>nextFilterId\<close> names the
  next filter, \<^verbatim>\<open>randCalls\<close> counts the random draws made so far.
\<close>

record state =
  err :: "string option"
  isLoaded :: bool
  wrappedWeb3 :: bool
  networkId :: "string option"
  valentineRegistry :: "contract option"
  valentineRequests :: "request list"
  logValentineRequestCreated :: "nat option"
  logRequestAccepted :: "nat option"
  activeWatchers :: "(event_kind \<times> nat) list"
  nextFilterId :: nat
  randCalls :: nat
  trace :: "action list"

text \<open>
  What the outside world answers during one boot: whether \<^verbatim>\<open>window.web3\<close> exists, the
  network the transport reports, the outcome of \<^verbatim>\<open>deployed()\<close>, web3's \<^verbatim>\<open>isAddress\<close>,
  and the random source. The transport wrapper (js/web3_wrapper) is not among the
  sources, so what it answers is a parameter. The \<open>i\<close>-th draw \<open>rand i\<close> stands for the \<open>i\<close>-th call of
  \<^verbatim>\<open>Math.random()\<close>: \<^verbatim>\<open>Math.floor(Math.random() * k + 1)\<close> ranges over \<open>1..k\<close> and is
  read as \<open>1 + rand i mod k\<close>.
\<close>

record env =
  window_web3 :: bool
  getNetworkIdIfExists :: "string option"
  deployed :: "string + contract"
  isAddress :: "string \<Rightarrow> bool"
  rand :: "nat \<Rightarrow> nat"

definition hasError :: "state \<Rightarrow> bool" where
  "hasError s = (err s \<noteq> None)"

definition getError :: "state \<Rightarrow> string option" where
  "getError s = err s"

definition getValentineRequests :: "state \<Rightarrow> request list" where
  "getValentineRequests s = store_getAll (valentineRequests s)"

text \<open>The store's change notification: \<^verbatim>\<open>_onValentineRequestsUpdated\<close> emits the event.\<close>

definition onValentineRequestsUpdated :: "state \<Rightarrow> state" where
  "onValentineRequestsUpdated s = s\<lparr>trace := trace s @ [Emit ''valentineRequestsUpdated'']\<rparr>"

text \<open>
  The three store mutations as the synchronizer performs them on its own store. A store
  error is thrown before anything is changed, so the state that comes with the exception
  is the state the call found.
\<close>

definition requests_clearAll :: "state \<Rightarrow> state" where
  "requests_clearAll s =
     onValentineRequestsUpdated
       (s\<lparr>valentineRequests := store_clearAll (valentineRequests s),
          trace := trace s @ [StoreClearAll]\<rparr>)"

definition requests_add :: "request \<Rightarrow> state \<Rightarrow> exn option \<times> state" where
  "requests_add r s =
     (case store_add r (valentineRequests s) of
        Inl e \<Rightarrow> (Some (StoreFailure e), s)
      | Inr st \<Rightarrow>
          (None, onValentineRequestsUpdated
                   (s\<lparr>valentineRequests := st, trace := trace s @ [StoreAdd r]\<rparr>)))"

definition requests_update :: "address \<Rightarrow> field_update \<Rightarrow> state \<Rightarrow> exn option \<times> state" where
  "requests_update a f s =
     (case store_update a f (valentineRequests s) of
        Inl e \<Rightarrow> (Some (StoreFailure e), s)
      | Inr st \<Rightarrow>
          (None, onValentineRequestsUpdated
                   (s\<lparr>valentineRequests := st, trace := trace s @ [StoreUpdate a f]\<rparr>)))"

section \<open>The bulk load\<close>

text \<open>
  \<^verbatim>\<open>_getExistingRequestsAsync\<close>: clear the store, read the count once, then for each
  index below it fetch, decode and add. A rejected call or a failing add ends the loop
  with the exception and leaves the store as it is at that moment.
\<close>

function getExistingRequests_loop ::
  "contract \<Rightarrow> nat \<Rightarrow> nat \<Rightarrow> state \<Rightarrow> exn option \<times> state" where
  "getExistingRequests_loop c i n s =
     (if i < n then
        (case getRequestByIndex c i of
           Inl m \<Rightarrow> (Some (Rejected m), s)
         | Inr requestArr \<Rightarrow>
             (case requests_add (convertRequestArrToObj requestArr) s of
                (Some e, s') \<Rightarrow> (Some e, s')
              | (None, s') \<Rightarrow> getExistingRequests_loop c (Suc i) n s'))
      else (None, s))"
  by pat_completeness auto
termination
  by (relation "measure (\<lambda>(c, i, n, s). n - i)") auto

text \<open>The loop's equation unfolds for ever; it is applied by hand where it is needed.\<close>

declare getExistingRequests_loop.simps [simp del]

definition getExistingRequestsAsync :: "state \<Rightarrow> exn option \<times> state" where
  "getExistingRequestsAsync s =
     (let s1 = requests_clearAll s in
      case valentineRegistry s1 of
        None \<Rightarrow> (Some TypeError, s1)
      | Some c \<Rightarrow>
          (case numRequesters c of
             Inl m \<Rightarrow> (Some (Rejected m), s1)
           | Inr n \<Rightarrow> getExistingRequests_loop c 0 n s1))"

section \<open>The demo requests\<close>

definition letters :: string where
  "letters = ''abcdefghijklmnopqrstuvwxyzABCDEFGHIJKLMNOPQRSTUVWXYZ''"

text \<open>One call of \<^verbatim>\<open>Math.floor((Math.random() * k) + 1)\<close>: a value in \<open>1..k\<close>.\<close>

definition draw :: "env \<Rightarrow> nat \<Rightarrow> state \<Rightarrow> nat \<times> state" where
  "draw e k s = (1 + rand e (randCalls s) mod k, s\<lparr>randCalls := Suc (randCalls s)\<rparr>)"

text \<open>
  \<^verbatim>\<open>getFakeName(len)\<close> appends \<open>len\<close> letters, each at a drawn position \<open>1..51\<close> of
  the 52 letters, so the read is always in range.
\<close>

fun getFakeName_loop :: "env \<Rightarrow> nat \<Rightarrow> string \<Rightarrow> state \<Rightarrow> string \<times> state" where
  "getFakeName_loop e 0 name s = (name, s)"
| "getFakeName_loop e (Suc k) name s =
     (case draw e 51 s of
        (letterIndex, s') \<Rightarrow> getFakeName_loop e k (name @ [letters ! letterIndex]) s')"

definition getFakeName :: "env \<Rightarrow> nat \<Rightarrow> state \<Rightarrow> string \<times> state" where
  "getFakeName e len s = getFakeName_loop e len [] s"

text \<open>
  \<^verbatim>\<open>_getUniqueFakeAddress\<close>: the null address with the character at a drawn position
  \<open>3..41\<close> replaced by a drawn letter.
\<close>

definition getUniqueFakeAddress :: "env \<Rightarrow> state \<Rightarrow> address \<times> state" where
  "getUniqueFakeAddress e s =
     (case draw e 39 s of
        (d, s1) \<Rightarrow>
          (case draw e 51 s1 of
             (letterIndex, s2) \<Rightarrow>
               (let index = 2 + d; letter = letters ! letterIndex
                in (take index NULL_ADDRESS @ [letter] @ drop (index + 1) NULL_ADDRESS, s2))))"

definition createFakeRequest :: "env \<Rightarrow> state \<Rightarrow> exn option \<times> state" where
  "createFakeRequest e s =
     (case getFakeName e 10 s of
        (rn, s1) \<Rightarrow>
          (case getFakeName e 12 s1 of
             (vn, s2) \<Rightarrow>
               (case getFakeName e 20 s2 of
                  (cm, s3) \<Rightarrow>
                    (case getUniqueFakeAddress e s3 of
                       (ra, s4) \<Rightarrow>
                         requests_add
                           \<lparr> requesterName = rn, valentineName = vn, customMessage = cm,
                             wasAccepted = False, valentineAddress = NULL_ADDRESS,
                             requesterAddress = ra \<rparr> s4))))"

fun createFakeRequests :: "env \<Rightarrow> nat \<Rightarrow> state \<Rightarrow> exn option \<times> state" where
  "createFakeRequests e 0 s = (None, s)"
| "createFakeRequests e (Suc num) s =
     (case createFakeRequest e s of
        (Some x, s') \<Rightarrow> (Some x, s')
      | (None, s') \<Rightarrow> createFakeRequests e num s')"

section \<open>Live event subscriptions\<close>

definition stopWatching :: "event_kind \<Rightarrow> nat \<Rightarrow> state \<Rightarrow> state" where
  "stopWatching k w s =
     s\<lparr>activeWatchers := removeAll (k, w) (activeWatchers s),
       trace := trace s @ [StopWatching k w]\<rparr>"

definition watch :: "event_kind \<Rightarrow> nat \<Rightarrow> state \<Rightarrow> state" where
  "watch k w s =
     s\<lparr>activeWatchers := activeWatchers s @ [(k, w)], trace := trace s @ [Watch k w]\<rparr>"

text \<open>
  \<^verbatim>\<open>_startWatchingContractForEvents\<close>: stop the remembered watchers, then create and
  start one filter per event kind. The contract binding is dereferenced after the stops.
\<close>

definition startWatchingContractForEvents :: "state \<Rightarrow> exn option \<times> state" where
  "startWatchingContractForEvents s =
     (let s1 = (case logValentineRequestCreated s of
                  None \<Rightarrow> s
                | Some w \<Rightarrow> stopWatching LogValentineRequestCreated w s);
          s2 = (case logRequestAccepted s1 of
                  None \<Rightarrow> s1
                | Some w \<Rightarrow> stopWatching LogRequestAccepted w s1)
      in case valentineRegistry s2 of
           None \<Rightarrow> (Some TypeError, s2)
         | Some c \<Rightarrow>
             (let w1 = nextFilterId s2;
                  s3 = watch LogValentineRequestCreated w1
                         (s2\<lparr>logValentineRequestCreated := Some w1, nextFilterId := Suc w1\<rparr>);
                  w2 = nextFilterId s3;
                  s4 = watch LogRequestAccepted w2
                         (s3\<lparr>logRequestAccepted := Some w2, nextFilterId := Suc w2\<rparr>)
              in (None, s4)))"

text \<open>
  What a watcher's callback receives: a delivery error, or the event's arguments. A
  creation event carries the fields of a request; an acceptance event carries the
  requester's address.
\<close>

datatype 'a delivery = DeliveryError string | Delivered 'a

definition onLogValentineRequestCreated :: "request delivery \<Rightarrow> state \<Rightarrow> exn option \<times> state" where
  "onLogValentineRequestCreated d s =
     (case d of
        DeliveryError m \<Rightarrow> (None, s\<lparr>trace := trace s @ [ConsoleLog]\<rparr>)
      | Delivered args \<Rightarrow>
          (let request = args\<lparr>wasAccepted := False\<rparr>
           in if \<not> store_has (requesterAddress request) (valentineRequests s)
              then requests_add request s
              else (None, s)))"

definition onLogRequestAccepted :: "address delivery \<Rightarrow> state \<Rightarrow> exn option \<times> state" where
  "onLogRequestAccepted d s =
     (case d of
        DeliveryError m \<Rightarrow> (None, s\<lparr>trace := trace s @ [ConsoleLog]\<rparr>)
      | Delivered a \<Rightarrow>
          (if store_has a (valentineRequests s)
           then requests_update a (SetWasAccepted True) s
           else (None, s)))"

datatype event = Created "request delivery" | Accepted "address delivery"

fun on_event :: "event \<Rightarrow> state \<Rightarrow> exn option \<times> state" where
  "on_event (Created d) s = onLogValentineRequestCreated d s"
| "on_event (Accepted d) s = onLogRequestAccepted d s"

text \<open>
  A sequence of callbacks, in the order delivered. Each callback is a call of its own:
  what one throws does not stop the next, it is only left behind.
\<close>

fun on_events :: "event list \<Rightarrow> state \<Rightarrow> state" where
  "on_events [] s = s"
| "on_events (ev # evs) s = on_events evs (snd (on_event ev s))"

section \<open>Boot, reload and network changes\<close>

text \<open>\<^verbatim>\<open>_.includes(errMsg, text)\<close> on strings: \<open>t\<close> occurs in \<open>s\<close> as a substring.\<close>

fun str_includes :: "string \<Rightarrow> string \<Rightarrow> bool" where
  "str_includes [] t = (t = [])"
| "str_includes (c # cs) t = (take (length t) (c # cs) = t \<or> str_includes cs t)"

text \<open>
  Modelled from the spec: the text \<^verbatim>\<open>`${err}`\<close> of a store error. The store's class
  is not among the sources; the specification names its errors DuplicateKey and NotFound,
  and they read as these names. A rejected remote call carries its own text; an error of
  the runtime or of a failed assertion reads as its name.
\<close>

fun errMsg :: "exn \<Rightarrow> string" where
  "errMsg (Rejected m) = m"
| "errMsg (StoreFailure DuplicateKey) = ''Error: DuplicateKey''"
| "errMsg (StoreFailure NotFound) = ''Error: NotFound''"
| "errMsg TypeError = ''TypeError''"
| "errMsg AssertionFailed = ''AssertionError''"

text \<open>
  The body of the \<^verbatim>\<open>try\<close> block of \<^verbatim>\<open>_instantiateContractAsync\<close>. It returns the
  exception thrown, if any, with the state at the moment it was thrown.
\<close>

definition tryBody :: "env \<Rightarrow> state \<Rightarrow> exn option \<times> state" where
  "tryBody e s =
     (case deployed e of
        Inl m \<Rightarrow> (Some (Rejected m), s)
      | Inr c \<Rightarrow>
          (case getExistingRequestsAsync (s\<lparr>valentineRegistry := Some c\<rparr>) of
             (Some x, s1) \<Rightarrow> (Some x, s1)
           | (None, s1) \<Rightarrow>
               (case createFakeRequests e 10 s1 of
                  (Some x, s2) \<Rightarrow> (Some x, s2)
                | (None, s2) \<Rightarrow> startWatchingContractForEvents s2)))"

definition catchBlock :: "exn \<Rightarrow> state \<Rightarrow> state" where
  "catchBlock x s =
     (if str_includes (errMsg x) ''not been deployed to detected network''
      then s\<lparr>err := Some ''CONTRACT_NOT_DEPLOYED_ON_NETWORK''\<rparr>
      else s\<lparr>err := Some ''UNHANDLED_ERROR'', trace := trace s @ [ConsoleLog]\<rparr>)"

text \<open>
  \<^verbatim>\<open>_instantiateContractAsync\<close>. Its first statement asks the transport wrapper for the
  network: while the wrapper is still null that throws a TypeError before any field is
  written, and the function ends with it. Otherwise it always returns, loaded, after one
  call of \<^verbatim>\<open>_onUpdatedFn\<close>.
\<close>

definition instantiateContractAsync :: "env \<Rightarrow> state \<Rightarrow> exn option \<times> state" where
  "instantiateContractAsync e s =
     (if \<not> wrappedWeb3 s then (Some TypeError, s)
      else
        (let s1 = s\<lparr>networkId := getNetworkIdIfExists e\<rparr>;
             s2 = (case networkId s1 of
                     Some n \<Rightarrow>
                       (case tryBody e s1 of
                          (None, s') \<Rightarrow> s'
                        | (Some x, s') \<Rightarrow> catchBlock x s')
                   | None \<Rightarrow> s1\<lparr>err := Some ''DISCONNECTED_FROM_ETHEREUM_NODE''\<rparr>)
         in (None, s2\<lparr>isLoaded := True, trace := trace s2 @ [OnUpdatedFn]\<rparr>)))"

text \<open>
  \<^verbatim>\<open>_networkConnectionChangedAsync\<close>. An exception of the awaited re-run ends the
  handler where it stands: the token is not remembered and \<^verbatim>\<open>_onUpdatedFn\<close> is not
  called.
\<close>

definition networkConnectionChangedAsync ::
  "env \<Rightarrow> string option \<Rightarrow> state \<Rightarrow> exn option \<times> state" where
  "networkConnectionChangedAsync e networkIdIfExists s =
     (case (case networkIdIfExists of
              None \<Rightarrow> (None, s\<lparr>err := Some ''DISCONNECTED_FROM_ETHEREUM_NODE''\<rparr>)
            | Some t \<Rightarrow>
                (if networkId s \<noteq> networkIdIfExists
                 then instantiateContractAsync e (s\<lparr>err := Some ''''\<rparr>)
                 else (None, s))) of
        (Some x, s1) \<Rightarrow> (Some x, s1)
      | (None, s1) \<Rightarrow>
          (None, s1\<lparr>networkId := networkIdIfExists, trace := trace s1 @ [OnUpdatedFn]\<rparr>))"

text \<open>The state the constructor leaves, before the page has loaded.\<close>

definition constructed :: state where
  "constructed =
     \<lparr> err = None, isLoaded = False, wrappedWeb3 = False, networkId = None,
       valentineRegistry = None, valentineRequests = [],
       logValentineRequestCreated = None, logRequestAccepted = None,
       activeWatchers = [], nextFilterId = 0, randCalls = 0, trace = [] \<rparr>"

text \<open>
  \<^verbatim>\<open>_onPageLoadInitFireAndForgetAsync\<close>, after the page has loaded. With a transport
  it sets the wrapper, on which the network listener is registered, and then runs
  \<^verbatim>\<open>_instantiateContractAsync\<close>; a notification can therefore only reach a state
  whose wrapper is set.
\<close>

definition onPageLoadInitFireAndForgetAsync :: "env \<Rightarrow> state \<Rightarrow> exn option \<times> state" where
  "onPageLoadInitFireAndForgetAsync e s =
     (if \<not> window_web3 e
      then (None, s\<lparr>err := Some ''NO_WEB3_INSTANCE_FOUND'', isLoaded := True,
                    trace := trace s @ [OnUpdatedFn]\<rparr>)
      else instantiateContractAsync e (s\<lparr>wrappedWeb3 := True\<rparr>))"

section \<open>Looking one request up\<close>

text \<open>\<^verbatim>\<open>toLowerCase\<close> on the ASCII letters an address can hold.\<close>

definition toLowerCase :: "string \<Rightarrow> string" where
  "toLowerCase str =
     map (\<lambda>c. let n = (of_char c :: nat)
              in if 65 \<le> n \<and> n \<le> 90 then char_of (n + 32) else c) str"

definition isValidAddress :: "env \<Rightarrow> state \<Rightarrow> address \<Rightarrow> exn + bool" where
  "isValidAddress e s a =
     (if wrappedWeb3 s then Inr (isAddress e (toLowerCase a)) else Inl TypeError)"

text \<open>
  \<^verbatim>\<open>getRequestIfExistsAsync\<close>: the assertion throws on an invalid address; otherwise the
  reply is decoded and null (\<open>None\<close>) is returned for the placeholder.
\<close>

definition getRequestIfExistsAsync :: "env \<Rightarrow> state \<Rightarrow> address \<Rightarrow> exn + request option" where
  "getRequestIfExistsAsync e s a =
     (case isValidAddress e s a of
        Inl x \<Rightarrow> Inl x
      | Inr False \<Rightarrow> Inl AssertionFailed
      | Inr True \<Rightarrow>
          (case valentineRegistry s of
             None \<Rightarrow> Inl TypeError
           | Some c \<Rightarrow>
               (case getRequestByRequesterAddress c a of
                  Inl m \<Rightarrow> Inl (Rejected m)
                | Inr requestArr \<Rightarrow>
                    (let request = convertRequestArrToObj requestArr
                     in if \<not> doesRequestExist request then Inr None
                        else Inr (Some request)))))"

section \<open>Closed forms and observations used in the proofs\<close>

text \<open>
  The demo request built from the draws \<open>p, p + 1, \<dots>, p + 43\<close>: ten, twelve and
  twenty letters for the three names, then the position and the letter of the address.
\<close>

definition fakeName :: "env \<Rightarrow> nat \<Rightarrow> nat \<Rightarrow> string" where
  "fakeName e p len = map (\<lambda>i. letters ! (1 + rand e (p + i) mod 51)) [0..<len]"

definition fakeAddress :: "env \<Rightarrow> nat \<Rightarrow> address" where
  "fakeAddress e p =
     take (2 + (1 + rand e p mod 39)) NULL_ADDRESS @ [letters ! (1 + rand e (Suc p) mod 51)]
       @ drop (2 + (1 + rand e p mod 39) + 1) NULL_ADDRESS"

definition fakeRequest :: "env \<Rightarrow> nat \<Rightarrow> request" where
  "fakeRequest e p =
     \<lparr> requesterName = fakeName e p 10, valentineName = fakeName e (p + 10) 12,
       customMessage = fakeName e (p + 22) 20, wasAccepted = False,
       valentineAddress = NULL_ADDRESS, requesterAddress = fakeAddress e (p + 42) \<rparr>"

definition fakeRequestsFrom :: "env \<Rightarrow> nat \<Rightarrow> nat \<Rightarrow> request list" where
  "fakeRequestsFrom e p num = map (\<lambda>k. fakeRequest e (p + 44 * k)) [0..<num]"

text \<open>The actions one successful \<^verbatim>\<open>add\<close> of each request of a list leaves in the trace.\<close>

definition addActions :: "request list \<Rightarrow> action list" where
  "addActions rs = concat (map (\<lambda>r. [StoreAdd r, Emit ''valentineRequestsUpdated'']) rs)"

text \<open>
  Reading a trace: a store mutation is a clear, an add or an update; a registration is the
  start of a watcher. \<open>watchersFollowStore\<close> says that from the first registration on, the
  trace holds no store mutation.
\<close>

fun isStoreMutation :: "action \<Rightarrow> bool" where
  "isStoreMutation StoreClearAll = True"
| "isStoreMutation (StoreAdd r) = True"
| "isStoreMutation (StoreUpdate a f) = True"
| "isStoreMutation a = False"

fun isRegistration :: "action \<Rightarrow> bool" where
  "isRegistration (Watch k w) = True"
| "isRegistration a = False"

definition watchersFollowStore :: "action list \<Rightarrow> bool" where
  "watchersFollowStore tr =
     list_all (\<lambda>a. \<not> isStoreMutation a) (dropWhile (\<lambda>a. \<not> isRegistration a) tr)"

text \<open>
  The claim of the specification about the bulk load, in its words: the decoded entities
  of the indices below the count, without the placeholders.
\<close>

definition nonPlaceholderEntities :: "requestArr list \<Rightarrow> request list" where
  "nonPlaceholderEntities arrs = filter doesRequestExist (map convertRequestArrToObj arrs)"

section \<open>Concrete ledgers, environments and states\<close>

definition aliceArr :: requestArr where
  "aliceArr = (''Alice'', ''Bob'', ''Be mine'', False, NULL_ADDRESS,
               ''0x00000000000000000000000000000000000000a1'')"

definition carolArr :: requestArr where
  "carolArr = (''Carol'', ''Dave'', ''Tea?'', True,
               ''0x00000000000000000000000000000000000000d4'',
               ''0x00000000000000000000000000000000000000c3'')"

definition lookupArr :: "address \<Rightarrow> string + requestArr" where
  "lookupArr a =
     (if a = ''0x00000000000000000000000000000000000000a1'' then Inr aliceArr
      else Inr emptyRequestArr)"

definition ledgerEmpty :: contract where
  "ledgerEmpty =
     \<lparr> numRequesters = Inr 0, getRequestByIndex = (\<lambda>i. Inl ''Error: invalid opcode''),
       getRequestByRequesterAddress = lookupArr \<rparr>"

definition ledgerWithPlaceholder :: contract where
  "ledgerWithPlaceholder =
     \<lparr> numRequesters = Inr 1, getRequestByIndex = (\<lambda>i. Inr emptyRequestArr),
       getRequestByRequesterAddress = lookupArr \<rparr>"

definition ledgerTwo :: contract where
  "ledgerTwo =
     \<lparr> numRequesters = Inr 2,
       getRequestByIndex = (\<lambda>i. if i = 0 then Inr aliceArr else Inr carolArr),
       getRequestByRequesterAddress = lookupArr \<rparr>"

definition ledgerBreaking :: contract where
  "ledgerBreaking =
     \<lparr> numRequesters = Inr 2,
       getRequestByIndex =
         (\<lambda>i. if i = 0 then Inr aliceArr else Inl ''Error: Invalid JSON RPC response''),
       getRequestByRequesterAddress = lookupArr \<rparr>"

definition envOf :: "string option \<Rightarrow> string + contract \<Rightarrow> env" where
  "envOf n d =
     \<lparr> window_web3 = True, getNetworkIdIfExists = n, deployed = d,
       isAddress = (\<lambda>a. length a = 42), rand = (\<lambda>i. i) \<rparr>"

definition envReady :: env where
  "envReady = envOf (Some ''1'') (Inr ledgerEmpty)"

definition envDisconnected :: env where
  "envDisconnected = envOf None (Inr ledgerEmpty)"

definition envNotDeployed :: env where
  "envNotDeployed =
     envOf (Some ''3'')
       (Inl ''Error: ValentineRegistry has not been deployed to detected network (network/artifact mismatch)'')"

definition envBreaking :: env where
  "envBreaking = envOf (Some ''1'') (Inr ledgerBreaking)"

definition envBreakingOn2 :: env where
  "envBreakingOn2 = envOf (Some ''2'') (Inr ledgerBreaking)"

definition withStore :: "request list \<Rightarrow> state" where
  "withStore rs = constructed\<lparr>wrappedWeb3 := True, valentineRequests := rs\<rparr>"

section \<open>Facts about the store operations and the event callbacks\<close>

lemma requests_add_fresh:
  "requesterAddress r \<notin> requesterAddress ` set (valentineRequests s) \<Longrightarrow>
   requests_add r s =
     (None, s\<lparr>valentineRequests := valentineRequests s @ [r],
              trace := trace s @ [StoreAdd r, Emit ''valentineRequestsUpdated'']\<rparr>)"
  by (simp add: requests_add_def store_add_def store_has_def onValentineRequestsUpdated_def)

lemma requests_add_cases:
  "requests_add r s = (x, s') \<Longrightarrow>
     (x = None \<and> requesterAddress r \<notin> requesterAddress ` set (valentineRequests s) \<and>
      s' = s\<lparr>valentineRequests := valentineRequests s @ [r],
              trace := trace s @ [StoreAdd r, Emit ''valentineRequestsUpdated'']\<rparr>)
     \<or> (x = Some (StoreFailure DuplicateKey) \<and> s' = s)"
  by (auto simp add: requests_add_def store_add_def store_has_def onValentineRequestsUpdated_def
      split: if_splits)

lemma created_result:
  "onLogValentineRequestCreated (Delivered args) s =
     (None,
      if requesterAddress args \<in> requesterAddress ` set (valentineRequests s) then s
      else s\<lparr>valentineRequests := valentineRequests s @ [args\<lparr>wasAccepted := False\<rparr>],
             trace := trace s @ [StoreAdd (args\<lparr>wasAccepted := False\<rparr>),
                                 Emit ''valentineRequestsUpdated'']\<rparr>)"
  by (simp add: onLogValentineRequestCreated_def store_has_def requests_add_fresh)

lemma created_error:
  "onLogValentineRequestCreated (DeliveryError m) s = (None, s\<lparr>trace := trace s @ [ConsoleLog]\<rparr>)"
  by (simp add: onLogValentineRequestCreated_def)

lemma accepted_result:
  "onLogRequestAccepted (Delivered a) s =
     (None,
      if a \<in> requesterAddress ` set (valentineRequests s)
      then s\<lparr>valentineRequests :=
               map (\<lambda>r. if requesterAddress r = a then r\<lparr>wasAccepted := True\<rparr> else r)
                 (valentineRequests s),
             trace := trace s @ [StoreUpdate a (SetWasAccepted True),
                                 Emit ''valentineRequestsUpdated'']\<rparr>
      else s)"
  by (simp add: onLogRequestAccepted_def store_has_def requests_update_def store_update_def
      onValentineRequestsUpdated_def)

lemma accepted_error:
  "onLogRequestAccepted (DeliveryError m) s = (None, s\<lparr>trace := trace s @ [ConsoleLog]\<rparr>)"
  by (simp add: onLogRequestAccepted_def)

lemma on_event_never_raises: "fst (on_event ev s) = None"
proof (cases ev)
  case (Created d)
  then show ?thesis by (cases d) (simp_all add: created_result created_error)
next
  case (Accepted d)
  then show ?thesis by (cases d) (simp_all add: accepted_result accepted_error)
qed

lemma on_event_err: "err (snd (on_event ev s)) = err s"
proof (cases ev)
  case (Created d)
  then show ?thesis
    by (cases d) (auto simp add: created_result created_error)
next
  case (Accepted d)
  then show ?thesis
    by (cases d) (auto simp add: accepted_result accepted_error)
qed

lemma on_events_err: "err (on_events evs s) = err s"
  by (induction evs arbitrary: s) (simp_all add: on_event_err)

lemma accept_keeps_keys:
  "requesterAddress \<circ> (\<lambda>r. if requesterAddress r = a then r\<lparr>wasAccepted := True\<rparr> else r)
     = requesterAddress"
  by (auto simp add: fun_eq_iff)

lemma on_event_distinct:
  "distinct (map requesterAddress (valentineRequests s)) \<Longrightarrow>
   distinct (map requesterAddress (valentineRequests (snd (on_event ev s))))"
proof (cases ev)
  case (Created d)
  assume "distinct (map requesterAddress (valentineRequests s))"
  with Created show ?thesis
    by (cases d) (auto simp add: created_result created_error)
next
  case (Accepted d)
  assume "distinct (map requesterAddress (valentineRequests s))"
  with Accepted show ?thesis
    by (cases d) (simp_all add: accepted_result accepted_error accept_keeps_keys)
qed

lemma on_event_step:
  assumes "i < length (valentineRequests s)"
  shows "i < length (valentineRequests (snd (on_event ev s))) \<and>
     (valentineRequests (snd (on_event ev s)) ! i = valentineRequests s ! i \<or>
      valentineRequests (snd (on_event ev s)) ! i = (valentineRequests s ! i)\<lparr>wasAccepted := True\<rparr>)"
proof (cases ev)
  case (Created d)
  with assms show ?thesis
    by (cases d) (simp_all add: created_result created_error nth_append)
next
  case (Accepted d)
  with assms show ?thesis
    by (cases d) (simp_all add: accepted_result accepted_error)
qed

lemma on_events_steps:
  "i < length (valentineRequests s) \<Longrightarrow>
   i < length (valentineRequests (on_events evs s)) \<and>
     (valentineRequests (on_events evs s) ! i = valentineRequests s ! i \<or>
      valentineRequests (on_events evs s) ! i = (valentineRequests s ! i)\<lparr>wasAccepted := True\<rparr>)"
proof (induction evs arbitrary: s)
  case Nil
  then show ?case by simp
next
  case (Cons ev evs)
  let ?s1 = "snd (on_event ev s)"
  from on_event_step [OF Cons.prems, of ev]
  have len: "i < length (valentineRequests ?s1)"
    and one: "valentineRequests ?s1 ! i = valentineRequests s ! i \<or>
      valentineRequests ?s1 ! i = (valentineRequests s ! i)\<lparr>wasAccepted := True\<rparr>"
    by simp_all
  from Cons.IH [OF len] one show ?case by auto
qed

section \<open>Facts about the bulk load\<close>

section \<open>Facts about the bulk load\<close>

text \<open>
  A bulk load that returns without an exception has read a count and one reply per index,
  and has appended the decoded replies to the cleared store; and conversely.
\<close>

lemma loop_success:
  "getExistingRequests_loop c i n s = (None, s') \<Longrightarrow>
   \<exists>arrs. map (getRequestByIndex c) [i..<n] = map Inr arrs \<and>
     distinct (map requesterAddress (valentineRequests s @ map convertRequestArrToObj arrs)) =
       distinct (map requesterAddress (valentineRequests s)) \<and>
     s' = s\<lparr>valentineRequests := valentineRequests s @ map convertRequestArrToObj arrs,
            trace := trace s @ addActions (map convertRequestArrToObj arrs)\<rparr>"
proof (induction c i n s rule: getExistingRequests_loop.induct)
  case (1 c i n s)
  show ?case
  proof (cases "i < n")
    case False
    with "1.prems" have "s' = s"
      by (simp add: getExistingRequests_loop.simps)
    with False show ?thesis
      by (intro exI [of _ "[]"]) (simp add: addActions_def)
  next
    case True
    from True "1.prems" obtain arr where arr: "getRequestByIndex c i = Inr arr"
      by (cases "getRequestByIndex c i") (simp_all add: getExistingRequests_loop.simps)
    let ?r = "convertRequestArrToObj arr"
    obtain x s1 where add: "requests_add ?r s = (x, s1)"
      by (cases "requests_add ?r s")
    from True "1.prems" arr add have x: "x = None"
      and rest: "getExistingRequests_loop c (Suc i) n s1 = (None, s')"
      by (cases x; simp add: getExistingRequests_loop.simps [of c i n s])+
    from requests_add_cases [OF add] x
    have fresh: "requesterAddress ?r \<notin> requesterAddress ` set (valentineRequests s)"
      and s1: "s1 = s\<lparr>valentineRequests := valentineRequests s @ [?r],
                      trace := trace s @ [StoreAdd ?r, Emit ''valentineRequestsUpdated'']\<rparr>"
      by auto
    from "1.IH" [OF True arr add [symmetric] _ rest] x
    obtain arrs where arrs: "map (getRequestByIndex c) [Suc i..<n] = map Inr arrs"
      and d: "distinct (map requesterAddress (valentineRequests s1 @ map convertRequestArrToObj arrs)) =
              distinct (map requesterAddress (valentineRequests s1))"
      and s': "s' = s1\<lparr>valentineRequests := valentineRequests s1 @ map convertRequestArrToObj arrs,
                       trace := trace s1 @ addActions (map convertRequestArrToObj arrs)\<rparr>"
      by auto
    have "map (getRequestByIndex c) [i..<n] = map Inr (arr # arrs)"
      using True arr arrs by (simp add: upt_conv_Cons)
    moreover have "distinct (map requesterAddress (valentineRequests s @ map convertRequestArrToObj (arr # arrs))) =
       distinct (map requesterAddress (valentineRequests s))"
      using d fresh by (simp add: s1)
    moreover have "s' = s\<lparr>valentineRequests := valentineRequests s @ map convertRequestArrToObj (arr # arrs),
            trace := trace s @ addActions (map convertRequestArrToObj (arr # arrs))\<rparr>"
      by (simp add: s' s1 addActions_def)
    ultimately show ?thesis by blast
  qed
qed

lemma bulk_load_success:
  assumes "getExistingRequestsAsync s = (None, s')"
  shows "\<exists>c n arrs. valentineRegistry s = Some c \<and> numRequesters c = Inr n \<and>
     map (getRequestByIndex c) [0..<n] = map Inr arrs \<and>
     distinct (map requesterAddress (map convertRequestArrToObj arrs)) \<and>
     s' = s\<lparr>valentineRequests := map convertRequestArrToObj arrs,
            trace := trace s @ [StoreClearAll, Emit ''valentineRequestsUpdated'']
                       @ addActions (map convertRequestArrToObj arrs)\<rparr>"
proof -
  let ?s1 = "requests_clearAll s"
  have s1: "?s1 = s\<lparr>valentineRequests := [],
      trace := trace s @ [StoreClearAll, Emit ''valentineRequestsUpdated'']\<rparr>"
    by (simp add: requests_clearAll_def onValentineRequestsUpdated_def store_clearAll_def)
  from assms obtain c where c: "valentineRegistry s = Some c"
    by (cases "valentineRegistry s") (simp_all add: getExistingRequestsAsync_def s1)
  from assms c obtain n where n: "numRequesters c = Inr n"
    by (cases "numRequesters c") (simp_all add: getExistingRequestsAsync_def s1)
  from assms c n have "getExistingRequests_loop c 0 n ?s1 = (None, s')"
    by (simp add: getExistingRequestsAsync_def s1)
  from loop_success [OF this] obtain arrs where
    "map (getRequestByIndex c) [0..<n] = map Inr arrs"
    "distinct (map requesterAddress (valentineRequests ?s1 @ map convertRequestArrToObj arrs)) =
       distinct (map requesterAddress (valentineRequests ?s1))"
    "s' = ?s1\<lparr>valentineRequests := valentineRequests ?s1 @ map convertRequestArrToObj arrs,
            trace := trace ?s1 @ addActions (map convertRequestArrToObj arrs)\<rparr>"
    by blast
  with c n show ?thesis by (auto simp add: s1)
qed

lemma loop_succeeds:
  "map (getRequestByIndex c) [i..<n] = map Inr arrs \<Longrightarrow>
   distinct (map requesterAddress (valentineRequests s @ map convertRequestArrToObj arrs)) \<Longrightarrow>
   getExistingRequests_loop c i n s =
     (None, s\<lparr>valentineRequests := valentineRequests s @ map convertRequestArrToObj arrs,
              trace := trace s @ addActions (map convertRequestArrToObj arrs)\<rparr>)"
proof (induction arrs arbitrary: i s)
  case Nil
  then have "\<not> i < n" by auto
  then show ?case
    by (simp add: getExistingRequests_loop.simps addActions_def)
next
  case (Cons a arrs)
  from Cons.prems(1) have lt: "i < n"
    by (cases "i < n") simp_all
  with Cons.prems(1) have a: "getRequestByIndex c i = Inr a"
    and rest: "map (getRequestByIndex c) [Suc i..<n] = map Inr arrs"
    by (simp_all add: upt_conv_Cons)
  let ?r = "convertRequestArrToObj a"
  let ?s1 = "s\<lparr>valentineRequests := valentineRequests s @ [?r],
              trace := trace s @ [StoreAdd ?r, Emit ''valentineRequestsUpdated'']\<rparr>"
  from Cons.prems(2) have "requesterAddress ?r \<notin> requesterAddress ` set (valentineRequests s)"
    by auto
  then have add: "requests_add ?r s = (None, ?s1)"
    by (rule requests_add_fresh)
  from Cons.prems(2)
  have "distinct (map requesterAddress (valentineRequests ?s1 @ map convertRequestArrToObj arrs))"
    by simp
  from Cons.IH [OF rest this] lt a add show ?case
    by (simp add: getExistingRequests_loop.simps [of c i n s] addActions_def)
qed

lemma bulk_load_succeeds:
  assumes "valentineRegistry s = Some c" and "numRequesters c = Inr n"
    and "map (getRequestByIndex c) [0..<n] = map Inr arrs"
    and "distinct (map requesterAddress (map convertRequestArrToObj arrs))"
  shows "getExistingRequestsAsync s =
     (None, s\<lparr>valentineRequests := map convertRequestArrToObj arrs,
              trace := trace s @ [StoreClearAll, Emit ''valentineRequestsUpdated'']
                         @ addActions (map convertRequestArrToObj arrs)\<rparr>)"
proof -
  let ?s1 = "s\<lparr>valentineRequests := [],
      trace := trace s @ [StoreClearAll, Emit ''valentineRequestsUpdated'']\<rparr>"
  have s1: "requests_clearAll s = ?s1"
    by (simp add: requests_clearAll_def onValentineRequestsUpdated_def store_clearAll_def)
  from assms(4)
  have "distinct (map requesterAddress (valentineRequests ?s1 @ map convertRequestArrToObj arrs))"
    by simp
  from loop_succeeds [OF assms(3) this] assms(1,2) show ?thesis
    by (simp add: getExistingRequestsAsync_def s1)
qed

section \<open>What a boot leaves in the trace\<close>

text \<open>
  A bulk load stops at the first index whose call is rejected or whose entity has a
  requesterAddress already added: the store then holds the entities of the indices
  before it, and nothing else.
\<close>

lemma loop_stops_at:
  assumes "map (getRequestByIndex c) [i..<j] = map Inr arrs" and "i \<le> j" and "j < n"
    and "distinct (map requesterAddress (valentineRequests s @ map convertRequestArrToObj arrs))"
    and "(\<exists>m. getRequestByIndex c j = Inl m) \<or>
         (\<exists>a. getRequestByIndex c j = Inr a \<and>
            requesterAddress (convertRequestArrToObj a) \<in>
              requesterAddress ` set (valentineRequests s @ map convertRequestArrToObj arrs))"
  shows "\<exists>x. getExistingRequests_loop c i n s =
     (Some x, s\<lparr>valentineRequests := valentineRequests s @ map convertRequestArrToObj arrs,
                trace := trace s @ addActions (map convertRequestArrToObj arrs)\<rparr>)"
  using assms
proof (induction arrs arbitrary: i s)
  case Nil
  then have ij: "i = j" by auto
  with Nil.prems(3) have lt: "i < n" by simp
  from Nil.prems(5) show ?case
  proof
    assume "\<exists>m. getRequestByIndex c j = Inl m"
    with ij lt show ?thesis
      by (auto simp add: getExistingRequests_loop.simps [of c j n s] addActions_def)
  next
    assume "\<exists>a. getRequestByIndex c j = Inr a \<and>
            requesterAddress (convertRequestArrToObj a) \<in>
              requesterAddress ` set (valentineRequests s @ map convertRequestArrToObj [])"
    then obtain a where a: "getRequestByIndex c j = Inr a"
      and p: "requesterAddress (convertRequestArrToObj a) \<in> requesterAddress ` set (valentineRequests s)"
      by auto
    from p have "requests_add (convertRequestArrToObj a) s = (Some (StoreFailure DuplicateKey), s)"
      by (simp add: requests_add_def store_add_def store_has_def)
    with ij lt a show ?thesis
      by (simp add: getExistingRequests_loop.simps [of c j n s] addActions_def)
  qed
next
  case (Cons a arrs)
  from Cons.prems(1) have ij: "i < j"
    by (cases "i < j") simp_all
  with Cons.prems(3) have lt: "i < n" by simp
  from ij Cons.prems(1) have a: "getRequestByIndex c i = Inr a"
    and rest: "map (getRequestByIndex c) [Suc i..<j] = map Inr arrs"
    by (simp_all add: upt_conv_Cons)
  let ?r = "convertRequestArrToObj a"
  let ?s1 = "s\<lparr>valentineRequests := valentineRequests s @ [?r],
              trace := trace s @ [StoreAdd ?r, Emit ''valentineRequestsUpdated'']\<rparr>"
  from Cons.prems(4) have "requesterAddress ?r \<notin> requesterAddress ` set (valentineRequests s)"
    by auto
  then have add: "requests_add ?r s = (None, ?s1)"
    by (rule requests_add_fresh)
  from Cons.prems(4)
  have d: "distinct (map requesterAddress (valentineRequests ?s1 @ map convertRequestArrToObj arrs))"
    by simp
  from Cons.prems(5)
  have f: "(\<exists>m. getRequestByIndex c j = Inl m) \<or>
         (\<exists>b. getRequestByIndex c j = Inr b \<and>
            requesterAddress (convertRequestArrToObj b) \<in>
              requesterAddress ` set (valentineRequests ?s1 @ map convertRequestArrToObj arrs))"
    by simp
  from ij have "Suc i \<le> j" by simp
  from Cons.IH [OF rest this Cons.prems(3) d f] lt a add show ?case
    by (simp add: getExistingRequests_loop.simps [of c i n s] addActions_def)
qed

lemma bulk_load_stops_at:
  assumes "valentineRegistry s = Some c" and "numRequesters c = Inr n" and "j < n"
    and "map (getRequestByIndex c) [0..<j] = map Inr arrs"
    and "distinct (map requesterAddress (map convertRequestArrToObj arrs))"
    and "(\<exists>m. getRequestByIndex c j = Inl m) \<or>
         (\<exists>a. getRequestByIndex c j = Inr a \<and>
            requesterAddress (convertRequestArrToObj a) \<in>
              requesterAddress ` set (map convertRequestArrToObj arrs))"
  shows "\<exists>x. getExistingRequestsAsync s =
     (Some x, s\<lparr>valentineRequests := map convertRequestArrToObj arrs,
                trace := trace s @ [StoreClearAll, Emit ''valentineRequestsUpdated'']
                           @ addActions (map convertRequestArrToObj arrs)\<rparr>)"
proof -
  let ?s1 = "s\<lparr>valentineRequests := [],
      trace := trace s @ [StoreClearAll, Emit ''valentineRequestsUpdated'']\<rparr>"
  have s1: "requests_clearAll s = ?s1"
    by (simp add: requests_clearAll_def onValentineRequestsUpdated_def store_clearAll_def)
  from assms(5)
  have d: "distinct (map requesterAddress (valentineRequests ?s1 @ map convertRequestArrToObj arrs))"
    by simp
  from assms(6)
  have f: "(\<exists>m. getRequestByIndex c j = Inl m) \<or>
         (\<exists>a. getRequestByIndex c j = Inr a \<and>
            requesterAddress (convertRequestArrToObj a) \<in>
              requesterAddress ` set (valentineRequests ?s1 @ map convertRequestArrToObj arrs))"
    by simp
  from loop_stops_at [OF assms(4) _ assms(3) d f] assms(1,2) show ?thesis
    by (simp add: getExistingRequestsAsync_def s1)
qed

section \<open>What a boot leaves in the trace\<close>

lemma requests_add_frame:
  "requests_add r s = (x, s') \<Longrightarrow>
   err s' = err s \<and> valentineRegistry s' = valentineRegistry s \<and>
   (\<exists>tr. trace s' = trace s @ tr \<and> list_all (\<lambda>a. \<not> isRegistration a) tr)"
  by (drule requests_add_cases) auto

lemma loop_frame:
  "getExistingRequests_loop c i n s = (x, s') \<Longrightarrow>
   err s' = err s \<and> valentineRegistry s' = valentineRegistry s \<and>
   (\<exists>tr. trace s' = trace s @ tr \<and> list_all (\<lambda>a. \<not> isRegistration a) tr)"
proof (induction c i n s rule: getExistingRequests_loop.induct)
  case (1 c i n s)
  show ?case
  proof (cases "i < n")
    case False
    with "1.prems" show ?thesis
      by (simp add: getExistingRequests_loop.simps)
  next
    case True
    show ?thesis
    proof (cases "getRequestByIndex c i")
      case (Inl m)
      with True "1.prems" show ?thesis
        by (simp add: getExistingRequests_loop.simps)
    next
      case (Inr arr)
      obtain y s1 where add: "requests_add (convertRequestArrToObj arr) s = (y, s1)"
        by (cases "requests_add (convertRequestArrToObj arr) s")
      note f1 = requests_add_frame [OF add]
      show ?thesis
      proof (cases y)
        case (Some z)
        with True Inr add "1.prems" have "s' = s1"
          by (simp add: getExistingRequests_loop.simps [of c i n s])
        with f1 show ?thesis by simp
      next
        case None
        with True Inr add "1.prems" have rest: "getExistingRequests_loop c (Suc i) n s1 = (x, s')"
          by (simp add: getExistingRequests_loop.simps [of c i n s])
        from "1.IH" [OF True Inr add [symmetric] None rest] f1
        show ?thesis by auto
      qed
    qed
  qed
qed

lemma bulk_load_frame:
  "getExistingRequestsAsync s = (x, s') \<Longrightarrow>
   err s' = err s \<and> valentineRegistry s' = valentineRegistry s \<and>
   (\<exists>tr. trace s' = trace s @ tr \<and> list_all (\<lambda>a. \<not> isRegistration a) tr)"
proof -
  assume a: "getExistingRequestsAsync s = (x, s')"
  let ?s1 = "requests_clearAll s"
  have s1: "?s1 = s\<lparr>valentineRequests := [],
      trace := trace s @ [StoreClearAll, Emit ''valentineRequestsUpdated'']\<rparr>"
    by (simp add: requests_clearAll_def onValentineRequestsUpdated_def store_clearAll_def)
  show ?thesis
  proof (cases "valentineRegistry s")
    case None
    with a show ?thesis by (auto simp add: getExistingRequestsAsync_def s1)
  next
    case (Some c)
    show ?thesis
    proof (cases "numRequesters c")
      case (Inl m)
      with Some a show ?thesis by (auto simp add: getExistingRequestsAsync_def s1)
    next
      case (Inr n)
      with Some a have "getExistingRequests_loop c 0 n ?s1 = (x, s')"
        by (simp add: getExistingRequestsAsync_def s1)
      from loop_frame [OF this] show ?thesis by (auto simp add: s1)
    qed
  qed
qed

lemma getFakeName_loop_closed:
  "getFakeName_loop e n name s =
     (name @ map (\<lambda>i. letters ! (1 + rand e (randCalls s + i) mod 51)) [0..<n],
      s\<lparr>randCalls := randCalls s + n\<rparr>)"
proof (induction n arbitrary: name s)
  case 0
  show ?case by simp
next
  case (Suc n)
  show ?case
    by (simp add: draw_def Suc.IH map_upt_Suc del: upt_Suc)
qed

lemma getFakeName_closed:
  "getFakeName e n s = (fakeName e (randCalls s) n, s\<lparr>randCalls := randCalls s + n\<rparr>)"
  by (simp add: getFakeName_def getFakeName_loop_closed fakeName_def)

lemma getUniqueFakeAddress_closed:
  "getUniqueFakeAddress e s = (fakeAddress e (randCalls s), s\<lparr>randCalls := randCalls s + 2\<rparr>)"
  by (simp add: getUniqueFakeAddress_def draw_def fakeAddress_def Let_def)

lemma createFakeRequest_closed:
  "createFakeRequest e s =
     requests_add (fakeRequest e (randCalls s)) (s\<lparr>randCalls := randCalls s + 44\<rparr>)"
  by (simp add: createFakeRequest_def getFakeName_closed getUniqueFakeAddress_closed
      fakeRequest_def add.commute)

lemma createFakeRequests_frame:
  "createFakeRequests e num s = (x, s') \<Longrightarrow>
   err s' = err s \<and> valentineRegistry s' = valentineRegistry s \<and>
   (\<exists>tr. trace s' = trace s @ tr \<and> list_all (\<lambda>a. \<not> isRegistration a) tr)"
proof (induction num arbitrary: s)
  case 0
  then show ?case by simp
next
  case (Suc num)
  obtain y s1 where add: "createFakeRequest e s = (y, s1)"
    by (cases "createFakeRequest e s")
  then have "requests_add (fakeRequest e (randCalls s)) (s\<lparr>randCalls := randCalls s + 44\<rparr>) = (y, s1)"
    by (simp add: createFakeRequest_closed)
  from requests_add_frame [OF this]
  have f1: "err s1 = err s \<and> valentineRegistry s1 = valentineRegistry s \<and>
    (\<exists>tr. trace s1 = trace s @ tr \<and> list_all (\<lambda>a. \<not> isRegistration a) tr)"
    by simp
  show ?case
  proof (cases y)
    case (Some z)
    with add Suc.prems have "s' = s1" by simp
    with f1 show ?thesis by simp
  next
    case None
    with add Suc.prems have "createFakeRequests e num s1 = (x, s')" by simp
    from Suc.IH [OF this] f1 show ?thesis by auto
  qed
qed

lemma startWatching_frame:
  "startWatchingContractForEvents s = (x, s') \<Longrightarrow>
   err s' = err s \<and> valentineRequests s' = valentineRequests s \<and>
   (\<exists>tr. trace s' = trace s @ tr \<and> list_all (\<lambda>a. \<not> isStoreMutation a) tr)"
  by (auto simp add: startWatchingContractForEvents_def stopWatching_def watch_def Let_def
      split: option.splits)

lemma tryBody_frame:
  assumes "tryBody e s = (x, s')"
  shows "err s' = err s \<and>
    (\<exists>tr1 tr2. trace s' = trace s @ tr1 @ tr2 \<and> list_all (\<lambda>a. \<not> isRegistration a) tr1 \<and>
       list_all (\<lambda>a. \<not> isStoreMutation a) tr2)"
proof (cases "deployed e")
  case (Inl m)
  with assms have "s' = s" by (simp add: tryBody_def)
  then show ?thesis by (intro conjI exI [of _ "[]"]) simp_all
next
  case (Inr c)
  obtain y s1 where load: "getExistingRequestsAsync (s\<lparr>valentineRegistry := Some c\<rparr>) = (y, s1)"
    by (cases "getExistingRequestsAsync (s\<lparr>valentineRegistry := Some c\<rparr>)")
  from bulk_load_frame [OF load] obtain t1 where
    f1: "err s1 = err s" "trace s1 = trace s @ t1" "list_all (\<lambda>a. \<not> isRegistration a) t1"
    by auto
  show ?thesis
  proof (cases y)
    case (Some z)
    with Inr load assms have "s' = s1" by (simp add: tryBody_def)
    with f1 show ?thesis by (intro conjI exI [of _ t1] exI [of _ "[]"]) simp_all
  next
    case None
    obtain y2 s2 where fakes: "createFakeRequests e 10 s1 = (y2, s2)"
      by (cases "createFakeRequests e 10 s1")
    from createFakeRequests_frame [OF fakes] obtain t2 where
      f2: "err s2 = err s1" "trace s2 = trace s1 @ t2" "list_all (\<lambda>a. \<not> isRegistration a) t2"
      by auto
    show ?thesis
    proof (cases y2)
      case (Some z)
      with Inr load None fakes assms have "s' = s2" by (simp add: tryBody_def)
      with f1 f2 show ?thesis
        by (intro conjI exI [of _ "t1 @ t2"] exI [of _ "[]"]) simp_all
    next
      case n2: None
      with Inr load None fakes assms have "startWatchingContractForEvents s2 = (x, s')"
        by (simp add: tryBody_def)
      from startWatching_frame [OF this] obtain t3 where
        f3: "err s' = err s2" "trace s' = trace s2 @ t3" "list_all (\<lambda>a. \<not> isStoreMutation a) t3"
        by auto
      with f1 f2 show ?thesis
        by (intro conjI exI [of _ "t1 @ t2"] exI [of _ t3]) simp_all
    qed
  qed
qed

lemma watchersFollowStore_append:
  "list_all (\<lambda>a. \<not> isRegistration a) tr1 \<Longrightarrow> list_all (\<lambda>a. \<not> isStoreMutation a) tr2 \<Longrightarrow>
   watchersFollowStore (tr1 @ tr2)"
proof -
  assume a: "list_all (\<lambda>a. \<not> isRegistration a) tr1" and b: "list_all (\<lambda>a. \<not> isStoreMutation a) tr2"
  from a have "dropWhile (\<lambda>a. \<not> isRegistration a) (tr1 @ tr2) = dropWhile (\<lambda>a. \<not> isRegistration a) tr2"
    by (simp add: list_all_iff dropWhile_append2)
  moreover have "set (dropWhile (\<lambda>a. \<not> isRegistration a) tr2) \<subseteq> set tr2"
    by (auto dest: set_dropWhileD)
  ultimately show ?thesis using b
    by (auto simp add: watchersFollowStore_def list_all_iff)
qed

lemma startWatching_bound:
  "valentineRegistry s = Some c \<Longrightarrow> fst (startWatchingContractForEvents s) = None"
  by (simp add: startWatchingContractForEvents_def stopWatching_def Let_def split: option.splits)

lemma tryBody_failure:
  assumes "tryBody e s = (Some x, s')"
  shows "\<exists>tr. trace s' = trace s @ tr \<and> list_all (\<lambda>a. \<not> isRegistration a) tr"
proof (cases "deployed e")
  case (Inl m)
  with assms have "s' = s" by (simp add: tryBody_def)
  then show ?thesis by simp
next
  case (Inr c)
  obtain y s1 where load: "getExistingRequestsAsync (s\<lparr>valentineRegistry := Some c\<rparr>) = (y, s1)"
    by (cases "getExistingRequestsAsync (s\<lparr>valentineRegistry := Some c\<rparr>)")
  from bulk_load_frame [OF load] obtain t1 where
    f1: "valentineRegistry s1 = Some c" "trace s1 = trace s @ t1"
      "list_all (\<lambda>a. \<not> isRegistration a) t1"
    by auto
  show ?thesis
  proof (cases y)
    case (Some z)
    with Inr load assms have "s' = s1" by (simp add: tryBody_def)
    with f1 show ?thesis by simp
  next
    case None
    obtain y2 s2 where fakes: "createFakeRequests e 10 s1 = (y2, s2)"
      by (cases "createFakeRequests e 10 s1")
    from createFakeRequests_frame [OF fakes] obtain t2 where
      f2: "valentineRegistry s2 = valentineRegistry s1" "trace s2 = trace s1 @ t2"
        "list_all (\<lambda>a. \<not> isRegistration a) t2"
      by auto
    show ?thesis
    proof (cases y2)
      case (Some z)
      with Inr load None fakes assms have "s' = s2" by (simp add: tryBody_def)
      with f1 f2 show ?thesis by simp
    next
      case n2: None
      with Inr load None fakes assms have "startWatchingContractForEvents s2 = (Some x, s')"
        by (simp add: tryBody_def)
      moreover from f1 f2 have "fst (startWatchingContractForEvents s2) = None"
        by (simp add: startWatching_bound)
      ultimately show ?thesis by simp
    qed
  qed
qed

lemma tryBody_success_loaded:
  "tryBody e s = (None, s') \<Longrightarrow>
   \<exists>c s1. deployed e = Inr c \<and>
     getExistingRequestsAsync (s\<lparr>valentineRegistry := Some c\<rparr>) = (None, s1)"
  by (auto simp add: tryBody_def split: sum.splits prod.splits option.splits)

lemma instantiate_without_wrapper:
  "\<not> wrappedWeb3 s \<Longrightarrow> instantiateContractAsync e s = (Some TypeError, s)"
  by (simp add: instantiateContractAsync_def)

lemma instantiate_returns:
  "wrappedWeb3 s \<Longrightarrow> fst (instantiateContractAsync e s) = None"
  by (simp add: instantiateContractAsync_def Let_def)

lemma instantiate_trace:
  "\<exists>tr. trace (snd (instantiateContractAsync e s)) = trace s @ tr \<and> watchersFollowStore tr"
proof (cases "wrappedWeb3 s")
  case False
  then have "trace (snd (instantiateContractAsync e s)) = trace s @ []"
    by (simp add: instantiateContractAsync_def)
  moreover have "watchersFollowStore []"
    by (simp add: watchersFollowStore_def)
  ultimately show ?thesis by blast
next
  case w: True
  show ?thesis
  proof (cases "getNetworkIdIfExists e")
    case None
    with w have "trace (snd (instantiateContractAsync e s)) = trace s @ [OnUpdatedFn]"
      by (simp add: instantiateContractAsync_def)
    moreover have "watchersFollowStore [OnUpdatedFn]"
      by (simp add: watchersFollowStore_def)
    ultimately show ?thesis by blast
  next
    case (Some n)
    obtain x s' where tb: "tryBody e (s\<lparr>networkId := Some n\<rparr>) = (x, s')"
      by (cases "tryBody e (s\<lparr>networkId := Some n\<rparr>)")
    from tryBody_frame [OF tb] obtain tr1 tr2 where
      f: "trace s' = trace s @ tr1 @ tr2" "list_all (\<lambda>a. \<not> isRegistration a) tr1"
         "list_all (\<lambda>a. \<not> isStoreMutation a) tr2"
      by auto
    have "\<exists>tr3. trace (snd (instantiateContractAsync e s)) = trace s' @ tr3 \<and>
        list_all (\<lambda>a. \<not> isStoreMutation a) tr3"
      using w Some tb by (cases x) (auto simp add: instantiateContractAsync_def catchBlock_def)
    then obtain tr3 where g: "trace (snd (instantiateContractAsync e s)) = trace s' @ tr3"
      "list_all (\<lambda>a. \<not> isStoreMutation a) tr3" by blast
    from f g have "trace (snd (instantiateContractAsync e s)) = trace s @ (tr1 @ (tr2 @ tr3))"
      by simp
    moreover from f g have "watchersFollowStore (tr1 @ (tr2 @ tr3))"
      by (intro watchersFollowStore_append) simp_all
    ultimately show ?thesis by blast
  qed
qed

lemma instantiate_registers_after_load:
  "\<exists>tr. trace (snd (instantiateContractAsync e s)) = trace s @ tr \<and>
     (list_all (\<lambda>a. \<not> isRegistration a) tr \<or>
      (\<exists>n c s1. getNetworkIdIfExists e = Some n \<and> deployed e = Inr c \<and>
         getExistingRequestsAsync (s\<lparr>networkId := Some n, valentineRegistry := Some c\<rparr>) = (None, s1)))"
proof (cases "wrappedWeb3 s")
  case False
  then have "trace (snd (instantiateContractAsync e s)) = trace s @ []"
    by (simp add: instantiateContractAsync_def)
  moreover have "list_all (\<lambda>a. \<not> isRegistration a) []" by simp
  ultimately show ?thesis by blast
next
  case w: True
  show ?thesis
  proof (cases "getNetworkIdIfExists e")
    case None
    with w have "trace (snd (instantiateContractAsync e s)) = trace s @ [OnUpdatedFn]"
      by (simp add: instantiateContractAsync_def)
    then show ?thesis by simp
  next
    case (Some n)
    obtain x s' where tb: "tryBody e (s\<lparr>networkId := Some n\<rparr>) = (x, s')"
      by (cases "tryBody e (s\<lparr>networkId := Some n\<rparr>)")
    show ?thesis
    proof (cases x)
      case None
      with tb tryBody_success_loaded [of e "s\<lparr>networkId := Some n\<rparr>" s']
      obtain c s1 where "deployed e = Inr c"
        "getExistingRequestsAsync (s\<lparr>networkId := Some n, valentineRegistry := Some c\<rparr>) = (None, s1)"
        by auto
      moreover from instantiate_trace [of e s]
      obtain tr where "trace (snd (instantiateContractAsync e s)) = trace s @ tr" by blast
      ultimately show ?thesis using Some by blast
    next
      case (Some z)
      with tb tryBody_failure [of e "s\<lparr>networkId := Some n\<rparr>" z s']
      obtain tr where "trace s' = trace s @ tr" "list_all (\<lambda>a. \<not> isRegistration a) tr"
        by auto
      with w tb Some \<open>getNetworkIdIfExists e = Some n\<close>
      have "\<exists>tr. trace (snd (instantiateContractAsync e s)) = trace s @ tr \<and>
          list_all (\<lambda>a. \<not> isRegistration a) tr"
        by (auto simp add: instantiateContractAsync_def catchBlock_def)
      then show ?thesis by blast
    qed
  qed
qed

lemma str_includes_iff: "str_includes s t \<longleftrightarrow> (\<exists>p q. s = p @ t @ q)"
proof (induction s)
  case Nil
  then show ?case by auto
next
  case (Cons c cs)
  show ?case
  proof
    assume "str_includes (c # cs) t"
    then consider "take (length t) (c # cs) = t" | "str_includes cs t" by auto
    then show "\<exists>p q. c # cs = p @ t @ q"
    proof cases
      case 1
      then have "c # cs = [] @ t @ drop (length t) (c # cs)"
        by (metis append_Nil append_take_drop_id)
      then show ?thesis by blast
    next
      case 2
      with Cons.IH obtain p q where "cs = p @ t @ q" by blast
      then have "c # cs = (c # p) @ t @ q" by simp
      then show ?thesis by blast
    qed
  next
    assume "\<exists>p q. c # cs = p @ t @ q"
    then obtain p q where pq: "c # cs = p @ t @ q" by blast
    show "str_includes (c # cs) t"
    proof (cases p)
      case Nil
      with pq have "take (length t) (c # cs) = t" by simp
      then show ?thesis by simp
    next
      case (Cons a p')
      with pq have "cs = p' @ t @ q" by simp
      with Cons.IH have "str_includes cs t" by blast
      then show ?thesis by simp
    qed
  qed
qed

section \<open>Concrete runs\<close>

section \<open>The demo requests in closed form\<close>

lemma fakeRequestsFrom_Suc:
  "fakeRequestsFrom e p (Suc num) = fakeRequest e p # fakeRequestsFrom e (p + 44) num"
  by (simp add: fakeRequestsFrom_def map_upt_Suc add.assoc del: upt_Suc)

lemma createFakeRequests_success:
  "distinct (map requesterAddress (valentineRequests s @ fakeRequestsFrom e (randCalls s) num)) \<Longrightarrow>
   createFakeRequests e num s =
     (None, s\<lparr>valentineRequests := valentineRequests s @ fakeRequestsFrom e (randCalls s) num,
              randCalls := randCalls s + 44 * num,
              trace := trace s @ addActions (fakeRequestsFrom e (randCalls s) num)\<rparr>)"
proof (induction num arbitrary: s)
  case 0
  show ?case by (simp add: fakeRequestsFrom_def addActions_def)
next
  case (Suc num)
  let ?r = "fakeRequest e (randCalls s)"
  let ?s1 = "s\<lparr>randCalls := randCalls s + 44, valentineRequests := valentineRequests s @ [?r],
                trace := trace s @ [StoreAdd ?r, Emit ''valentineRequestsUpdated'']\<rparr>"
  from Suc.prems have fresh: "requesterAddress ?r \<notin> requesterAddress ` set (valentineRequests s)"
    by (auto simp add: fakeRequestsFrom_Suc)
  then have one: "createFakeRequest e s = (None, ?s1)"
    by (simp add: createFakeRequest_closed requests_add_fresh)
  from Suc.prems
  have "distinct (map requesterAddress (valentineRequests ?s1 @ fakeRequestsFrom e (randCalls ?s1) num))"
    by (simp add: fakeRequestsFrom_Suc)
  from Suc.IH [OF this] one show ?case
    by (simp add: fakeRequestsFrom_Suc addActions_def)
qed

lemma createFakeRequests_stops_at:
  assumes "k < num"
    and "distinct (map requesterAddress (valentineRequests s @ fakeRequestsFrom e (randCalls s) k))"
    and "requesterAddress (fakeRequest e (randCalls s + 44 * k)) \<in>
           requesterAddress ` set (valentineRequests s @ fakeRequestsFrom e (randCalls s) k)"
  shows "\<exists>x s'. createFakeRequests e num s = (Some x, s') \<and>
     valentineRequests s' = valentineRequests s @ fakeRequestsFrom e (randCalls s) k"
  using assms
proof (induction k arbitrary: num s)
  case 0
  then obtain m where num: "num = Suc m" by (cases num) auto
  from 0 have "requesterAddress (fakeRequest e (randCalls s)) \<in>
      requesterAddress ` set (valentineRequests (s\<lparr>randCalls := randCalls s + 44\<rparr>))"
    by (simp add: fakeRequestsFrom_def)
  then have "createFakeRequest e s = (Some (StoreFailure DuplicateKey), s\<lparr>randCalls := randCalls s + 44\<rparr>)"
    by (simp add: createFakeRequest_closed requests_add_def store_add_def store_has_def)
  then show ?case by (simp add: num fakeRequestsFrom_def)
next
  case (Suc k)
  then obtain m where num: "num = Suc m" and km: "k < m" by (cases num) auto
  let ?r = "fakeRequest e (randCalls s)"
  let ?s1 = "s\<lparr>randCalls := randCalls s + 44, valentineRequests := valentineRequests s @ [?r],
                trace := trace s @ [StoreAdd ?r, Emit ''valentineRequestsUpdated'']\<rparr>"
  from Suc.prems(2) have "requesterAddress ?r \<notin> requesterAddress ` set (valentineRequests s)"
    by (auto simp add: fakeRequestsFrom_Suc)
  then have one: "createFakeRequest e s = (None, ?s1)"
    by (simp add: createFakeRequest_closed requests_add_fresh)
  from Suc.prems(2)
  have d: "distinct (map requesterAddress (valentineRequests ?s1 @ fakeRequestsFrom e (randCalls ?s1) k))"
    by (simp add: fakeRequestsFrom_Suc)
  from Suc.prems(3)
  have p: "requesterAddress (fakeRequest e (randCalls ?s1 + 44 * k)) \<in>
           requesterAddress ` set (valentineRequests ?s1 @ fakeRequestsFrom e (randCalls ?s1) k)"
    by (simp add: fakeRequestsFrom_Suc add.assoc)
  from Suc.IH [OF km d p] one show ?case
    by (simp add: num fakeRequestsFrom_Suc)
qed

lemma fakeAddresses:
  "map requesterAddress (fakeRequestsFrom e p num) = map (\<lambda>k. fakeAddress e (p + 44 * k + 42)) [0..<num]"
  by (simp add: fakeRequestsFrom_def fakeRequest_def)

lemma upt_10: "[0..<10] = [0, 1, 2, 3, 4, 5, 6, 7, 8, 9]"
  by (simp add: upt_rec)

lemma fakes_distinct: "distinct (map requesterAddress (fakeRequestsFrom envReady 0 10))"
  by (simp add: fakeAddresses upt_10 fakeAddress_def envReady_def envOf_def NULL_ADDRESS_def
      letters_def)

section \<open>What a failed attempt leaves in the store\<close>

text \<open>
  The \<^verbatim>\<open>try\<close> block starts from the cleared store once the contract is resolved, so
  what it leaves does not depend on what the store held; the catch block keeps the store
  the exception left.
\<close>

lemma tryBody_forgets_store:
  "deployed e = Inr c \<Longrightarrow> tryBody e (s\<lparr>valentineRequests := rs\<rparr>) = tryBody e s"
  by (simp add: tryBody_def getExistingRequestsAsync_def requests_clearAll_def
      onValentineRequestsUpdated_def store_clearAll_def)

lemma instantiate_failed:
  assumes "wrappedWeb3 s" and "getNetworkIdIfExists e = Some n"
    and "tryBody e (s\<lparr>networkId := Some n\<rparr>) = (Some x, sf)"
  shows "getValentineRequests (snd (instantiateContractAsync e s)) = valentineRequests sf \<and>
    hasError (snd (instantiateContractAsync e s))"
  using assms
  by (simp add: instantiateContractAsync_def catchBlock_def getValentineRequests_def
      store_getAll_def hasError_def)

lemma instantiate_forgets_store:
  assumes "deployed e = Inr c" and "getNetworkIdIfExists e = Some n" and "wrappedWeb3 s"
  shows "instantiateContractAsync e (s\<lparr>valentineRequests := rs\<rparr>) = instantiateContractAsync e s"
proof -
  have "tryBody e (s\<lparr>valentineRequests := rs, networkId := Some n\<rparr>) =
      tryBody e ((s\<lparr>networkId := Some n\<rparr>)\<lparr>valentineRequests := rs\<rparr>)"
    by (cases s) simp
  also have "\<dots> = tryBody e (s\<lparr>networkId := Some n\<rparr>)"
    using assms(1) by (rule tryBody_forgets_store)
  finally show ?thesis
    using assms(2,3) by (simp add: instantiateContractAsync_def)
qed

lemma tryBody_count_rejected:
  "deployed e = Inr c \<Longrightarrow> numRequesters c = Inl m \<Longrightarrow>
   \<exists>sf. tryBody e s = (Some (Rejected m), sf) \<and> valentineRequests sf = []"
  by (simp add: tryBody_def getExistingRequestsAsync_def requests_clearAll_def
      onValentineRequestsUpdated_def store_clearAll_def)

lemma tryBody_load_fault:
  assumes "deployed e = Inr c" and "numRequesters c = Inr k" and "j < k"
    and "map (getRequestByIndex c) [0..<j] = map Inr arrs"
    and "distinct (map requesterAddress (map convertRequestArrToObj arrs))"
    and "(\<exists>m. getRequestByIndex c j = Inl m) \<or>
         (\<exists>a. getRequestByIndex c j = Inr a \<and>
            requesterAddress (convertRequestArrToObj a) \<in>
              requesterAddress ` set (map convertRequestArrToObj arrs))"
  shows "\<exists>x sf. tryBody e s = (Some x, sf) \<and> valentineRequests sf = map convertRequestArrToObj arrs"
proof -
  have "valentineRegistry (s\<lparr>valentineRegistry := Some c\<rparr>) = Some c" by simp
  from bulk_load_stops_at [OF this assms(2,3,4,5,6)] obtain x where
    "getExistingRequestsAsync (s\<lparr>valentineRegistry := Some c\<rparr>) =
       (Some x, s\<lparr>valentineRegistry := Some c,
                 valentineRequests := map convertRequestArrToObj arrs,
                 trace := trace s @ [StoreClearAll, Emit ''valentineRequestsUpdated'']
                           @ addActions (map convertRequestArrToObj arrs)\<rparr>)"
    by auto
  with assms(1) show ?thesis by (simp add: tryBody_def)
qed

lemma tryBody_demo_fault:
  assumes "deployed e = Inr c" and "numRequesters c = Inr k"
    and "map (getRequestByIndex c) [0..<k] = map Inr arrs"
    and "j < 10"
    and "distinct (map requesterAddress
           (map convertRequestArrToObj arrs @ fakeRequestsFrom e (randCalls s) j))"
    and "requesterAddress (fakeRequest e (randCalls s + 44 * j)) \<in>
           requesterAddress ` set (map convertRequestArrToObj arrs @ fakeRequestsFrom e (randCalls s) j)"
  shows "\<exists>x sf. tryBody e s = (Some x, sf) \<and>
     valentineRequests sf = map convertRequestArrToObj arrs @ fakeRequestsFrom e (randCalls s) j"
proof -
  let ?s1 = "s\<lparr>valentineRegistry := Some c,
               valentineRequests := map convertRequestArrToObj arrs,
               trace := trace s @ [StoreClearAll, Emit ''valentineRequestsUpdated'']
                          @ addActions (map convertRequestArrToObj arrs)\<rparr>"
  have r: "valentineRegistry (s\<lparr>valentineRegistry := Some c\<rparr>) = Some c" by simp
  from assms(5) have d: "distinct (map requesterAddress (map convertRequestArrToObj arrs))"
    by simp
  from bulk_load_succeeds [OF r assms(2,3) d]
  have load: "getExistingRequestsAsync (s\<lparr>valentineRegistry := Some c\<rparr>) = (None, ?s1)"
    by simp
  from assms(5,6) have
    "distinct (map requesterAddress (valentineRequests ?s1 @ fakeRequestsFrom e (randCalls ?s1) j))"
    "requesterAddress (fakeRequest e (randCalls ?s1 + 44 * j)) \<in>
       requesterAddress ` set (valentineRequests ?s1 @ fakeRequestsFrom e (randCalls ?s1) j)"
    by simp_all
  from createFakeRequests_stops_at [OF assms(4) this] obtain x sf where
    "createFakeRequests e 10 ?s1 = (Some x, sf)"
    "valentineRequests sf = map convertRequestArrToObj arrs @ fakeRequestsFrom e (randCalls s) j"
    by auto
  with assms(1) load show ?thesis by (simp add: tryBody_def)
qed

section \<open>Concrete runs\<close>

lemma startWatching_fresh:
  "valentineRegistry s = Some c \<Longrightarrow> logValentineRequestCreated s = None \<Longrightarrow>
   logRequestAccepted s = None \<Longrightarrow>
   startWatchingContractForEvents s =
     (None, s\<lparr>logValentineRequestCreated := Some (nextFilterId s),
              logRequestAccepted := Some (Suc (nextFilterId s)),
              activeWatchers := activeWatchers s @
                [(LogValentineRequestCreated, nextFilterId s),
                 (LogRequestAccepted, Suc (nextFilterId s))],
              nextFilterId := Suc (Suc (nextFilterId s)),
              trace := trace s @ [Watch LogValentineRequestCreated (nextFilterId s),
                                  Watch LogRequestAccepted (Suc (nextFilterId s))]\<rparr>)"
  by (simp add: startWatchingContractForEvents_def watch_def Let_def)

lemma bulk_load_ledgerEmpty:
  "getExistingRequestsAsync (s\<lparr>valentineRegistry := Some ledgerEmpty\<rparr>) =
     (None, s\<lparr>valentineRegistry := Some ledgerEmpty, valentineRequests := [],
              trace := trace s @ [StoreClearAll, Emit ''valentineRequestsUpdated'']\<rparr>)"
  by (simp add: getExistingRequestsAsync_def requests_clearAll_def store_clearAll_def
      onValentineRequestsUpdated_def ledgerEmpty_def getExistingRequests_loop.simps)

lemma tryBody_envReady:
  assumes "randCalls s = 0" "logValentineRequestCreated s = None" "logRequestAccepted s = None"
  shows "tryBody envReady s =
     (None, s\<lparr>valentineRegistry := Some ledgerEmpty,
              valentineRequests := fakeRequestsFrom envReady 0 10,
              randCalls := 440,
              logValentineRequestCreated := Some (nextFilterId s),
              logRequestAccepted := Some (Suc (nextFilterId s)),
              activeWatchers := activeWatchers s @
                [(LogValentineRequestCreated, nextFilterId s),
                 (LogRequestAccepted, Suc (nextFilterId s))],
              nextFilterId := Suc (Suc (nextFilterId s)),
              trace := trace s @ [StoreClearAll, Emit ''valentineRequestsUpdated'']
                @ addActions (fakeRequestsFrom envReady 0 10)
                @ [Watch LogValentineRequestCreated (nextFilterId s),
                   Watch LogRequestAccepted (Suc (nextFilterId s))]\<rparr>)"
proof -
  let ?s1 = "s\<lparr>valentineRegistry := Some ledgerEmpty, valentineRequests := [],
              trace := trace s @ [StoreClearAll, Emit ''valentineRequestsUpdated'']\<rparr>"
  have d: "deployed envReady = Inr ledgerEmpty"
    by (simp add: envReady_def envOf_def)
  have "distinct (map requesterAddress (valentineRequests ?s1 @ fakeRequestsFrom envReady (randCalls ?s1) 10))"
    using assms(1) fakes_distinct by simp
  from createFakeRequests_success [OF this] assms(1)
  have fakes: "createFakeRequests envReady 10 ?s1 =
     (None, ?s1\<lparr>valentineRequests := fakeRequestsFrom envReady 0 10, randCalls := 440,
            trace := trace ?s1 @ addActions (fakeRequestsFrom envReady 0 10)\<rparr>)"
    by simp
  show ?thesis
    using assms by (simp add: tryBody_def d bulk_load_ledgerEmpty fakes startWatching_fresh)
qed

lemma boot_disconnected:
  "onPageLoadInitFireAndForgetAsync envDisconnected constructed =
     (None, constructed\<lparr>err := Some ''DISCONNECTED_FROM_ETHEREUM_NODE'', isLoaded := True,
       wrappedWeb3 := True, trace := [OnUpdatedFn]\<rparr>)"
  by (simp add: onPageLoadInitFireAndForgetAsync_def instantiateContractAsync_def
      envDisconnected_def envOf_def constructed_def)

lemma boot_ready:
  "onPageLoadInitFireAndForgetAsync envReady constructed =
     (None, constructed\<lparr>isLoaded := True, wrappedWeb3 := True, networkId := Some ''1'',
       valentineRegistry := Some ledgerEmpty,
       valentineRequests := fakeRequestsFrom envReady 0 10,
       randCalls := 440,
       logValentineRequestCreated := Some 0, logRequestAccepted := Some 1,
       activeWatchers := [(LogValentineRequestCreated, 0), (LogRequestAccepted, 1)],
       nextFilterId := 2,
       trace := [StoreClearAll, Emit ''valentineRequestsUpdated'']
                @ addActions (fakeRequestsFrom envReady 0 10)
                @ [Watch LogValentineRequestCreated 0, Watch LogRequestAccepted 1, OnUpdatedFn]\<rparr>)"
proof -
  let ?s = "constructed\<lparr>wrappedWeb3 := True, networkId := Some ''1''\<rparr>"
  have "tryBody envReady ?s = (None, snd (tryBody envReady ?s))"
    and "snd (tryBody envReady ?s) = ?s\<lparr>valentineRegistry := Some ledgerEmpty,
              valentineRequests := fakeRequestsFrom envReady 0 10,
              randCalls := 440,
              logValentineRequestCreated := Some 0,
              logRequestAccepted := Some 1,
              activeWatchers := [(LogValentineRequestCreated, 0), (LogRequestAccepted, 1)],
              nextFilterId := 2,
              trace := [StoreClearAll, Emit ''valentineRequestsUpdated'']
                @ addActions (fakeRequestsFrom envReady 0 10)
                @ [Watch LogValentineRequestCreated 0, Watch LogRequestAccepted 1]\<rparr>"
    by (simp_all add: tryBody_envReady constructed_def)
  moreover have "getNetworkIdIfExists envReady = Some ''1''" "window_web3 envReady"
    by (simp_all add: envReady_def envOf_def)
  ultimately show ?thesis
    by (simp add: onPageLoadInitFireAndForgetAsync_def instantiateContractAsync_def constructed_def)
qed

lemma bulk_load_ledgerTwo:
  "getExistingRequestsAsync
     ((withStore [convertRequestArrToObj aliceArr])\<lparr>valentineRegistry := Some ledgerTwo\<rparr>) =
   (None, (withStore [convertRequestArrToObj aliceArr])
      \<lparr>valentineRegistry := Some ledgerTwo,
        valentineRequests := [convertRequestArrToObj aliceArr, convertRequestArrToObj carolArr],
        trace := [StoreClearAll, Emit ''valentineRequestsUpdated'']
          @ addActions [convertRequestArrToObj aliceArr, convertRequestArrToObj carolArr]\<rparr>)"
  by (simp add: getExistingRequestsAsync_def requests_clearAll_def store_clearAll_def
      onValentineRequestsUpdated_def ledgerTwo_def getExistingRequests_loop.simps
      requests_add_def store_add_def store_has_def withStore_def constructed_def
      aliceArr_def carolArr_def addActions_def)

lemma tryBody_envNotDeployed:
  "tryBody envNotDeployed s =
     (Some (Rejected ''Error: ValentineRegistry has not been deployed to detected network (network/artifact mismatch)''), s)"
  by (simp add: tryBody_def envNotDeployed_def envOf_def)

lemma tryBody_ledgerBreaking:
  "tryBody (envOf n (Inr ledgerBreaking)) s =
     (Some (Rejected ''Error: Invalid JSON RPC response''),
      s\<lparr>valentineRegistry := Some ledgerBreaking,
        valentineRequests := [convertRequestArrToObj aliceArr],
        trace := trace s @ [StoreClearAll, Emit ''valentineRequestsUpdated'',
                  StoreAdd (convertRequestArrToObj aliceArr), Emit ''valentineRequestsUpdated'']\<rparr>)"
  by (simp add: tryBody_def envOf_def getExistingRequestsAsync_def
      requests_clearAll_def store_clearAll_def onValentineRequestsUpdated_def ledgerBreaking_def
      getExistingRequests_loop.simps requests_add_def store_add_def store_has_def)

lemma reload_breaking:
  assumes "wrappedWeb3 s" and "networkId s \<noteq> Some ''2''"
  shows "networkConnectionChangedAsync envBreakingOn2 (Some ''2'') s =
     (None, s\<lparr>err := Some ''UNHANDLED_ERROR'', isLoaded := True, networkId := Some ''2'',
              valentineRegistry := Some ledgerBreaking,
              valentineRequests := [convertRequestArrToObj aliceArr],
              trace := trace s @ [StoreClearAll, Emit ''valentineRequestsUpdated'',
                  StoreAdd (convertRequestArrToObj aliceArr), Emit ''valentineRequestsUpdated'',
                  ConsoleLog, OnUpdatedFn, OnUpdatedFn]\<rparr>)"
proof -
  have n: "getNetworkIdIfExists envBreakingOn2 = Some ''2''"
    by (simp add: envBreakingOn2_def envOf_def)
  have t: "tryBody envBreakingOn2 s' =
     (Some (Rejected ''Error: Invalid JSON RPC response''),
      s'\<lparr>valentineRegistry := Some ledgerBreaking,
        valentineRequests := [convertRequestArrToObj aliceArr],
        trace := trace s' @ [StoreClearAll, Emit ''valentineRequestsUpdated'',
                  StoreAdd (convertRequestArrToObj aliceArr), Emit ''valentineRequestsUpdated'']\<rparr>)"
    for s'
    unfolding envBreakingOn2_def by (rule tryBody_ledgerBreaking)
  from assms n show ?thesis
    by (simp add: networkConnectionChangedAsync_def instantiateContractAsync_def t catchBlock_def)
qed

text \<open>
  Every reload whose \<^verbatim>\<open>try\<close> block throws nothing ends with the empty string in the
  error field: the reset before the re-run is the last write to it.
\<close>

lemma reload_success_leaves_empty_error:
  assumes "wrappedWeb3 s" and "networkId s \<noteq> Some t" and "getNetworkIdIfExists e = Some n"
    and "fst (tryBody e (s\<lparr>err := Some '''', networkId := Some n\<rparr>)) = None"
  shows "fst (networkConnectionChangedAsync e (Some t) s) = None \<and>
    hasError (snd (networkConnectionChangedAsync e (Some t) s)) \<and>
    getError (snd (networkConnectionChangedAsync e (Some t) s)) = Some '''' \<and>
    isLoaded (snd (networkConnectionChangedAsync e (Some t) s))"
proof -
  obtain s' where run: "tryBody e (s\<lparr>err := Some '''', networkId := Some n\<rparr>) = (None, s')"
    using assms(4) by (cases "tryBody e (s\<lparr>err := Some '''', networkId := Some n\<rparr>)") auto
  from tryBody_frame [OF run] have "err s' = Some ''''" by simp
  with run assms(1,2,3) show ?thesis
    by (simp add: networkConnectionChangedAsync_def instantiateContractAsync_def
        hasError_def getError_def)
qed

section \<open>The claims\<close>

subsection \<open>C1: what the bulk load leaves in the store\<close>

text \<open>
  Claim C1, as the code has it. When \<^verbatim>\<open>_getExistingRequestsAsync\<close> returns without an
  exception, the contract binding gave a count \<open>n\<close> and a reply for every index below
  \<open>n\<close>; \<^verbatim>\<open>getAll()\<close> is then exactly the list of the decoded replies in index order,
  no two of them with the same requesterAddress, and the trace shows the clear, then one
  add per entity. No reply is left out: a reply that decodes to the placeholder is stored
  like any other.
\<close>

theorem bulk_load_mirrors_ledger:
  assumes "getExistingRequestsAsync s = (None, s')"
  shows "\<exists>c n arrs. valentineRegistry s = Some c \<and> numRequesters c = Inr n \<and>
     map (getRequestByIndex c) [0..<n] = map Inr arrs \<and>
     getValentineRequests s' = map convertRequestArrToObj arrs \<and>
     distinct (map requesterAddress (getValentineRequests s')) \<and>
     trace s' = trace s @ [StoreClearAll, Emit ''valentineRequestsUpdated'']
                  @ addActions (getValentineRequests s')"
proof -
  from bulk_load_success [OF assms] obtain c n arrs where
    "valentineRegistry s = Some c" "numRequesters c = Inr n"
    "map (getRequestByIndex c) [0..<n] = map Inr arrs"
    "distinct (map requesterAddress (map convertRequestArrToObj arrs))"
    "s' = s\<lparr>valentineRequests := map convertRequestArrToObj arrs,
            trace := trace s @ [StoreClearAll, Emit ''valentineRequestsUpdated'']
                       @ addActions (map convertRequestArrToObj arrs)\<rparr>"
    by blast
  then show ?thesis
    by (intro exI [of _ c] exI [of _ n] exI [of _ arrs])
       (simp add: getValentineRequests_def store_getAll_def)
qed

text \<open>
  A ledger of two requests, loaded into a store that already held the first of them: the
  load succeeds, since the store is cleared first, and the store mirrors the ledger.
\<close>

theorem bulk_load_mirrors_ledger_witness:
  "fst (getExistingRequestsAsync
     ((withStore [convertRequestArrToObj aliceArr])\<lparr>valentineRegistry := Some ledgerTwo\<rparr>)) = None \<and>
   getValentineRequests (snd (getExistingRequestsAsync
     ((withStore [convertRequestArrToObj aliceArr])\<lparr>valentineRegistry := Some ledgerTwo\<rparr>))) =
     [convertRequestArrToObj aliceArr, convertRequestArrToObj carolArr] \<and>
   distinct (map requesterAddress (getValentineRequests (snd (getExistingRequestsAsync
     ((withStore [convertRequestArrToObj aliceArr])\<lparr>valentineRegistry := Some ledgerTwo\<rparr>)))))"
proof -
  from bulk_load_mirrors_ledger [OF bulk_load_ledgerTwo]
  have "distinct (map requesterAddress (getValentineRequests (snd (getExistingRequestsAsync
     ((withStore [convertRequestArrToObj aliceArr])\<lparr>valentineRegistry := Some ledgerTwo\<rparr>)))))"
    by (simp only: bulk_load_ledgerTwo snd_conv) blast
  then show ?thesis
    by (simp add: bulk_load_ledgerTwo getValentineRequests_def store_getAll_def)
qed

text \<open>
  Claim C1 as the specification words it fails: on a ledger whose one entry is the
  placeholder the load succeeds and the store holds the placeholder, while the
  non-placeholder entities of that ledger are none.
\<close>

theorem bulk_load_keeps_placeholder:
  "fst (getExistingRequestsAsync (constructed\<lparr>valentineRegistry := Some ledgerWithPlaceholder\<rparr>)) = None \<and>
   getValentineRequests
     (snd (getExistingRequestsAsync (constructed\<lparr>valentineRegistry := Some ledgerWithPlaceholder\<rparr>)))
     = [convertRequestArrToObj emptyRequestArr] \<and>
   nonPlaceholderEntities [emptyRequestArr] = [] \<and>
   getValentineRequests
     (snd (getExistingRequestsAsync (constructed\<lparr>valentineRegistry := Some ledgerWithPlaceholder\<rparr>)))
     \<noteq> nonPlaceholderEntities [emptyRequestArr]"
  by (simp add: getExistingRequestsAsync_def requests_clearAll_def store_clearAll_def
      onValentineRequestsUpdated_def ledgerWithPlaceholder_def getExistingRequests_loop.simps
      requests_add_def store_add_def store_has_def constructed_def
      getValentineRequests_def store_getAll_def nonPlaceholderEntities_def doesRequestExist_def)

subsection \<open>C2: a reload after an error\<close>

subsection \<open>C2: a reload after an error\<close>

text \<open>
  Claim C2 at a concrete run. The first boot finds no network and ends in the error
  state. A notification with the token \<^verbatim>\<open>1\<close> then re-runs the sequence, which succeeds:
  the \<^verbatim>\<open>try\<close> block throws nothing and the handler returns. The error field was reset
  to the empty string before the re-run and nothing sets it to null afterwards, so
  \<^verbatim>\<open>hasError()\<close>, which tests for null, is still true and \<^verbatim>\<open>getError()\<close> is the
  empty string.
\<close>

theorem reload_after_error_still_reports_error:
  "hasError (snd (onPageLoadInitFireAndForgetAsync envDisconnected constructed)) \<and>
   fst (tryBody envReady
          ((snd (onPageLoadInitFireAndForgetAsync envDisconnected constructed))
             \<lparr>err := Some '''', networkId := Some ''1''\<rparr>)) = None \<and>
   fst (networkConnectionChangedAsync envReady (Some ''1'')
          (snd (onPageLoadInitFireAndForgetAsync envDisconnected constructed))) = None \<and>
   hasError (snd (networkConnectionChangedAsync envReady (Some ''1'')
              (snd (onPageLoadInitFireAndForgetAsync envDisconnected constructed)))) \<and>
   getError (snd (networkConnectionChangedAsync envReady (Some ''1'')
              (snd (onPageLoadInitFireAndForgetAsync envDisconnected constructed)))) = Some '''' \<and>
   isLoaded (snd (networkConnectionChangedAsync envReady (Some ''1'')
              (snd (onPageLoadInitFireAndForgetAsync envDisconnected constructed))))"
proof -
  let ?s = "constructed\<lparr>err := Some '''', isLoaded := True,
       wrappedWeb3 := True, networkId := Some ''1'', trace := [OnUpdatedFn]\<rparr>"
  have run: "fst (tryBody envReady ?s) = None" "err (snd (tryBody envReady ?s)) = Some ''''"
    by (simp_all add: tryBody_envReady constructed_def)
  have n: "getNetworkIdIfExists envReady = Some ''1''"
    by (simp add: envReady_def envOf_def)
  obtain s' where s': "tryBody envReady ?s = (None, s')" "err s' = Some ''''"
    using run by (cases "tryBody envReady ?s") auto
  show ?thesis
    unfolding boot_disconnected
    using run s' n
    by (simp add: networkConnectionChangedAsync_def instantiateContractAsync_def
        hasError_def getError_def constructed_def)
qed

subsection \<open>C3: subscriptions start after the bulk load\<close>

text \<open>
  Claim C3. What \<^verbatim>\<open>_instantiateContractAsync\<close>, a boot, or a network change appends to
  the trace holds no store mutation from its first watcher registration on: the clear and
  every add of the load precede the registrations. And a registration is appended only
  when the network was detected, the contract was resolved and the bulk load returned
  without an exception.
\<close>

theorem subscriptions_follow_bulk_load:
  "(\<exists>tr. trace (snd (instantiateContractAsync e s)) = trace s @ tr \<and> watchersFollowStore tr \<and>
      (list_all (\<lambda>a. \<not> isRegistration a) tr \<or>
       (\<exists>n c s1. getNetworkIdIfExists e = Some n \<and> deployed e = Inr c \<and>
          getExistingRequestsAsync (s\<lparr>networkId := Some n, valentineRegistry := Some c\<rparr>)
            = (None, s1)))) \<and>
   (\<exists>tr. trace (snd (onPageLoadInitFireAndForgetAsync e s)) = trace s @ tr \<and>
      watchersFollowStore tr) \<and>
   (\<exists>tr. trace (snd (networkConnectionChangedAsync e t s)) = trace s @ tr \<and>
      watchersFollowStore tr)"
proof (intro conjI)
  from instantiate_trace [of e s] instantiate_registers_after_load [of e s]
  show "\<exists>tr. trace (snd (instantiateContractAsync e s)) = trace s @ tr \<and> watchersFollowStore tr \<and>
      (list_all (\<lambda>a. \<not> isRegistration a) tr \<or>
       (\<exists>n c s1. getNetworkIdIfExists e = Some n \<and> deployed e = Inr c \<and>
          getExistingRequestsAsync (s\<lparr>networkId := Some n, valentineRegistry := Some c\<rparr>)
            = (None, s1)))"
    by auto
next
  show "\<exists>tr. trace (snd (onPageLoadInitFireAndForgetAsync e s)) = trace s @ tr \<and>
      watchersFollowStore tr"
  proof (cases "window_web3 e")
    case False
    then have "trace (snd (onPageLoadInitFireAndForgetAsync e s)) = trace s @ [OnUpdatedFn]"
      by (simp add: onPageLoadInitFireAndForgetAsync_def)
    moreover have "watchersFollowStore [OnUpdatedFn]"
      by (simp add: watchersFollowStore_def)
    ultimately show ?thesis by blast
  next
    case True
    with instantiate_trace [of e "s\<lparr>wrappedWeb3 := True\<rparr>"] show ?thesis
      by (simp add: onPageLoadInitFireAndForgetAsync_def)
  qed
next
  have one: "watchersFollowStore [OnUpdatedFn]"
    by (simp add: watchersFollowStore_def)
  show "\<exists>tr. trace (snd (networkConnectionChangedAsync e t s)) = trace s @ tr \<and>
      watchersFollowStore tr"
  proof (cases "t \<noteq> None \<and> networkId s \<noteq> t")
    case False
    then have "trace (snd (networkConnectionChangedAsync e t s)) = trace s @ [OnUpdatedFn]"
      by (cases t) (auto simp add: networkConnectionChangedAsync_def)
    with one show ?thesis by blast
  next
    case True
    obtain x s' where run: "instantiateContractAsync e (s\<lparr>err := Some ''''\<rparr>) = (x, s')"
      by (cases "instantiateContractAsync e (s\<lparr>err := Some ''''\<rparr>)")
    from instantiate_trace [of e "s\<lparr>err := Some ''''\<rparr>"] run obtain tr where
      tr: "trace s' = trace s @ tr" "watchersFollowStore tr" by auto
    show ?thesis
    proof (cases x)
      case (Some z)
      with True run have "trace (snd (networkConnectionChangedAsync e t s)) = trace s @ tr"
        by (cases t) (auto simp add: networkConnectionChangedAsync_def tr)
      with tr show ?thesis by blast
    next
      case None
      with True run
      have "trace (snd (networkConnectionChangedAsync e t s)) = trace s @ (tr @ [OnUpdatedFn])"
        by (cases t) (auto simp add: networkConnectionChangedAsync_def tr)
      moreover from tr have "watchersFollowStore (tr @ [OnUpdatedFn])"
        by (simp add: watchersFollowStore_def list_all_iff dropWhile_append)
      ultimately show ?thesis by blast
    qed
  qed
qed

text \<open>
  The boot on a reachable network with an empty ledger: the clear, the adds of the demo
  requests, then the two registrations.
\<close>

theorem subscriptions_follow_bulk_load_witness:
  "watchersFollowStore (trace (snd (onPageLoadInitFireAndForgetAsync envReady constructed))) \<and>
   trace (snd (onPageLoadInitFireAndForgetAsync envReady constructed)) =
     [StoreClearAll, Emit ''valentineRequestsUpdated'']
       @ addActions (fakeRequestsFrom envReady 0 10)
       @ [Watch LogValentineRequestCreated 0, Watch LogRequestAccepted 1, OnUpdatedFn]"
proof -
  from subscriptions_follow_bulk_load [of envReady constructed None]
  obtain tr where
    "trace (snd (onPageLoadInitFireAndForgetAsync envReady constructed)) = trace constructed @ tr"
    "watchersFollowStore tr" by blast
  then have "watchersFollowStore (trace (snd (onPageLoadInitFireAndForgetAsync envReady constructed)))"
    by (simp add: constructed_def)
  moreover have "trace (snd (onPageLoadInitFireAndForgetAsync envReady constructed)) =
     [StoreClearAll, Emit ''valentineRequestsUpdated'']
       @ addActions (fakeRequestsFrom envReady 0 10)
       @ [Watch LogValentineRequestCreated 0, Watch LogRequestAccepted 1, OnUpdatedFn]"
    by (simp add: boot_ready)
  ultimately show ?thesis by blast
qed

subsection \<open>C4: acceptance events\<close>

text \<open>
  Claim C4. An acceptance callback never throws. When the store has the address, the
  entry with that address gets \<open>wasAccepted = True\<close>, the other entries stay as they
  are, and the error field is untouched; when it has not, the whole state is unchanged.
  Over any sequence of creation and acceptance callbacks, delivered or failed, the error
  field stays as it was, every entry keeps its position and its address, and an entry
  that was accepted is never changed again.
\<close>

theorem acceptance_is_monotone:
  "fst (onLogRequestAccepted d s) = None \<and>
   (a \<in> requesterAddress ` set (getValentineRequests s) \<longrightarrow>
      getValentineRequests (snd (onLogRequestAccepted (Delivered a) s)) =
        map (\<lambda>r. if requesterAddress r = a then r\<lparr>wasAccepted := True\<rparr> else r)
          (getValentineRequests s) \<and>
      err (snd (onLogRequestAccepted (Delivered a) s)) = err s) \<and>
   (a \<notin> requesterAddress ` set (getValentineRequests s) \<longrightarrow>
      snd (onLogRequestAccepted (Delivered a) s) = s) \<and>
   err (on_events evs s) = err s \<and>
   (\<forall>i < length (getValentineRequests s).
      i < length (getValentineRequests (on_events evs s)) \<and>
      requesterAddress (getValentineRequests (on_events evs s) ! i) =
        requesterAddress (getValentineRequests s ! i) \<and>
      (wasAccepted (getValentineRequests s ! i) \<longrightarrow>
         getValentineRequests (on_events evs s) ! i = getValentineRequests s ! i))"
proof -
  have "fst (onLogRequestAccepted d s) = None"
    using on_event_never_raises [of "Accepted d" s] by simp
  moreover have "err (on_events evs s) = err s"
    by (rule on_events_err)
  moreover have "i < length (valentineRequests (on_events evs s)) \<and>
      requesterAddress (valentineRequests (on_events evs s) ! i) =
        requesterAddress (valentineRequests s ! i) \<and>
      (wasAccepted (valentineRequests s ! i) \<longrightarrow>
         valentineRequests (on_events evs s) ! i = valentineRequests s ! i)"
    if "i < length (valentineRequests s)" for i
    using on_events_steps [OF that, of evs] by auto
  ultimately show ?thesis
    by (simp add: accepted_result getValentineRequests_def store_getAll_def)
qed

text \<open>
  A store of two requests; an acceptance for the first, an acceptance for an unknown
  address, a replayed creation of the first and a failed delivery.
\<close>

theorem acceptance_is_monotone_witness:
  "getValentineRequests
     (on_events [Accepted (Delivered ''0x00000000000000000000000000000000000000a1''),
                 Accepted (Delivered ''0x00000000000000000000000000000000000000ee''),
                 Created (Delivered (convertRequestArrToObj aliceArr)),
                 Accepted (DeliveryError ''timeout'')]
        (withStore [convertRequestArrToObj aliceArr, convertRequestArrToObj carolArr])) =
     [(convertRequestArrToObj aliceArr)\<lparr>wasAccepted := True\<rparr>, convertRequestArrToObj carolArr] \<and>
   snd (onLogRequestAccepted (Delivered ''0x00000000000000000000000000000000000000ee'')
        (withStore [convertRequestArrToObj aliceArr])) = withStore [convertRequestArrToObj aliceArr] \<and>
   getError
     (on_events [Accepted (Delivered ''0x00000000000000000000000000000000000000a1''),
                 Accepted (Delivered ''0x00000000000000000000000000000000000000ee''),
                 Created (Delivered (convertRequestArrToObj aliceArr)),
                 Accepted (DeliveryError ''timeout'')]
        (withStore [convertRequestArrToObj aliceArr, convertRequestArrToObj carolArr])) = None"
proof -
  let ?s = "withStore [convertRequestArrToObj aliceArr, convertRequestArrToObj carolArr]"
  let ?evs = "[Accepted (Delivered ''0x00000000000000000000000000000000000000a1''),
                 Accepted (Delivered ''0x00000000000000000000000000000000000000ee''),
                 Created (Delivered (convertRequestArrToObj aliceArr)),
                 Accepted (DeliveryError ''timeout'')]"
  have run: "getValentineRequests (on_events ?evs ?s) =
     [(convertRequestArrToObj aliceArr)\<lparr>wasAccepted := True\<rparr>, convertRequestArrToObj carolArr]"
    by (simp add: accepted_result accepted_error created_result withStore_def constructed_def
        getValentineRequests_def store_getAll_def aliceArr_def carolArr_def)
  have absent: "''0x00000000000000000000000000000000000000ee'' \<notin>
      requesterAddress ` set (getValentineRequests (withStore [convertRequestArrToObj aliceArr]))"
    by (simp add: withStore_def getValentineRequests_def store_getAll_def aliceArr_def)
  from acceptance_is_monotone
    [of "Delivered ''0x00000000000000000000000000000000000000ee''"
        "withStore [convertRequestArrToObj aliceArr]"
        "''0x00000000000000000000000000000000000000ee''" "[]"]
    absent
  have 2: "snd (onLogRequestAccepted (Delivered ''0x00000000000000000000000000000000000000ee'')
        (withStore [convertRequestArrToObj aliceArr])) = withStore [convertRequestArrToObj aliceArr]"
    by blast
  from acceptance_is_monotone [of "Delivered ''''" ?s "''''" ?evs]
  have "err (on_events ?evs ?s) = err ?s" by blast
  then have 3: "getError (on_events ?evs ?s) = None"
    by (simp add: getError_def withStore_def constructed_def)
  from run 2 3 show ?thesis by simp
qed

subsection \<open>C5: creation events\<close>

subsection \<open>C5: creation events\<close>

text \<open>
  Claim C5. A creation callback never throws. It appends the event's request with
  \<open>wasAccepted = False\<close> when the store has no entry with that requesterAddress, and
  leaves the store as it is otherwise; delivering the same event a second time changes
  nothing; and a store without duplicate addresses stays without them.
\<close>

theorem creation_event_adds_once:
  "fst (onLogValentineRequestCreated d s) = None \<and>
   getValentineRequests (snd (onLogValentineRequestCreated (Delivered args) s)) =
     (if requesterAddress args \<in> requesterAddress ` set (getValentineRequests s)
      then getValentineRequests s
      else getValentineRequests s @ [args\<lparr>wasAccepted := False\<rparr>]) \<and>
   getValentineRequests
       (snd (onLogValentineRequestCreated (Delivered args)
          (snd (onLogValentineRequestCreated (Delivered args) s)))) =
     getValentineRequests (snd (onLogValentineRequestCreated (Delivered args) s)) \<and>
   (distinct (map requesterAddress (getValentineRequests s)) \<longrightarrow>
      distinct (map requesterAddress
        (getValentineRequests (snd (onLogValentineRequestCreated d s)))))"
proof -
  have "fst (onLogValentineRequestCreated d s) = None"
    using on_event_never_raises [of "Created d" s] by simp
  moreover have "distinct (map requesterAddress (valentineRequests s)) \<Longrightarrow>
      distinct (map requesterAddress (valentineRequests (snd (onLogValentineRequestCreated d s))))"
    using on_event_distinct [of s "Created d"] by simp
  ultimately show ?thesis
    by (simp add: created_result getValentineRequests_def store_getAll_def)
qed

text \<open>
  A store that holds one request from the bulk load; a new request delivered twice, then
  a creation event for the request already loaded.
\<close>

theorem creation_event_adds_once_witness:
  "getValentineRequests
     (on_events [Created (Delivered (convertRequestArrToObj carolArr)),
                 Created (Delivered (convertRequestArrToObj carolArr)),
                 Created (Delivered (convertRequestArrToObj aliceArr))]
        (withStore [convertRequestArrToObj aliceArr])) =
     [convertRequestArrToObj aliceArr, (convertRequestArrToObj carolArr)\<lparr>wasAccepted := False\<rparr>] \<and>
   distinct (map requesterAddress
     (getValentineRequests
        (snd (onLogValentineRequestCreated (Delivered (convertRequestArrToObj carolArr))
           (withStore [convertRequestArrToObj aliceArr])))))"
proof -
  let ?s = "withStore [convertRequestArrToObj aliceArr]"
  have d: "distinct (map requesterAddress (getValentineRequests ?s))"
    by (simp add: withStore_def getValentineRequests_def store_getAll_def)
  from creation_event_adds_once [of "Delivered (convertRequestArrToObj carolArr)" ?s
      "convertRequestArrToObj carolArr"] d
  have "distinct (map requesterAddress
     (getValentineRequests
        (snd (onLogValentineRequestCreated (Delivered (convertRequestArrToObj carolArr)) ?s))))"
    by blast
  moreover have "getValentineRequests
     (on_events [Created (Delivered (convertRequestArrToObj carolArr)),
                 Created (Delivered (convertRequestArrToObj carolArr)),
                 Created (Delivered (convertRequestArrToObj aliceArr))] ?s) =
     [convertRequestArrToObj aliceArr, (convertRequestArrToObj carolArr)\<lparr>wasAccepted := False\<rparr>]"
    by (simp add: created_result withStore_def constructed_def
        getValentineRequests_def store_getAll_def aliceArr_def carolArr_def)
  ultimately show ?thesis by simp
qed

subsection \<open>C6: a notification with the remembered token\<close>

subsection \<open>C6: a notification with the remembered token\<close>

text \<open>
  Claim C6. When the notification carries the token the synchronizer remembers, the
  handler returns, and the state afterwards is the state before with one more call of
  \<^verbatim>\<open>_onUpdatedFn\<close> in the trace: the store, the active watchers and the two
  remembered filters are the same.
\<close>

theorem same_token_is_noop:
  assumes "networkId s = Some t"
  shows "networkConnectionChangedAsync e (Some t) s = (None, s\<lparr>trace := trace s @ [OnUpdatedFn]\<rparr>) \<and>
    getValentineRequests (snd (networkConnectionChangedAsync e (Some t) s)) = getValentineRequests s \<and>
    activeWatchers (snd (networkConnectionChangedAsync e (Some t) s)) = activeWatchers s \<and>
    logValentineRequestCreated (snd (networkConnectionChangedAsync e (Some t) s)) =
      logValentineRequestCreated s \<and>
    logRequestAccepted (snd (networkConnectionChangedAsync e (Some t) s)) = logRequestAccepted s"
  using assms by (simp add: networkConnectionChangedAsync_def getValentineRequests_def)

text \<open>
  The state after a successful boot on network \<^verbatim>\<open>1\<close>, notified with \<^verbatim>\<open>1\<close> again.
\<close>

theorem same_token_is_noop_witness:
  "networkId (snd (onPageLoadInitFireAndForgetAsync envReady constructed)) = Some ''1'' \<and>
   hasError (snd (onPageLoadInitFireAndForgetAsync envReady constructed)) = False \<and>
   getValentineRequests (snd (networkConnectionChangedAsync envNotDeployed (Some ''1'')
       (snd (onPageLoadInitFireAndForgetAsync envReady constructed)))) =
     getValentineRequests (snd (onPageLoadInitFireAndForgetAsync envReady constructed)) \<and>
   activeWatchers (snd (networkConnectionChangedAsync envNotDeployed (Some ''1'')
       (snd (onPageLoadInitFireAndForgetAsync envReady constructed)))) =
     [(LogValentineRequestCreated, 0), (LogRequestAccepted, 1)]"
proof -
  have n: "networkId (snd (onPageLoadInitFireAndForgetAsync envReady constructed)) = Some ''1''"
    by (simp add: boot_ready)
  have "hasError (snd (onPageLoadInitFireAndForgetAsync envReady constructed)) = False"
    "activeWatchers (snd (onPageLoadInitFireAndForgetAsync envReady constructed)) =
       [(LogValentineRequestCreated, 0), (LogRequestAccepted, 1)]"
    unfolding boot_ready by (simp_all add: hasError_def constructed_def)
  with n same_token_is_noop [OF n, of envNotDeployed, THEN conjunct2] show ?thesis by simp
qed

subsection \<open>C7: the kind of a resolution failure\<close>

text \<open>
  Claim C7. The contract is resolved and loaded inside the \<^verbatim>\<open>try\<close> block, which is
  reached only when the transport wrapper is set and a network was detected. When the
  block then throws, \<^verbatim>\<open>_instantiateContractAsync\<close> still returns, loaded, and its error
  is CONTRACT_NOT_DEPLOYED_ON_NETWORK when the text of the exception contains
  \<^verbatim>\<open>not been deployed to detected network\<close> and UNHANDLED_ERROR otherwise: one of the
  two fixed kinds, never the text itself.
\<close>

theorem resolution_failure_kinds:
  assumes "wrappedWeb3 s" and "getNetworkIdIfExists e = Some n"
    and "tryBody e (s\<lparr>networkId := Some n\<rparr>) = (Some x, sf)"
  shows "fst (instantiateContractAsync e s) = None \<and>
    isLoaded (snd (instantiateContractAsync e s)) \<and>
    getError (snd (instantiateContractAsync e s)) =
      Some (if (\<exists>p q. errMsg x = p @ ''not been deployed to detected network'' @ q)
            then ''CONTRACT_NOT_DEPLOYED_ON_NETWORK'' else ''UNHANDLED_ERROR'')"
  using assms
  by (simp add: instantiateContractAsync_def catchBlock_def str_includes_iff getError_def)

text \<open>
  With the wrapper set: a contract that is not deployed on the detected network, and a
  ledger whose second reply is a transport failure.
\<close>

theorem resolution_failure_kinds_witness:
  "wrappedWeb3 (withStore []) \<and>
   fst (instantiateContractAsync envNotDeployed (withStore [])) = None \<and>
   getError (snd (instantiateContractAsync envNotDeployed (withStore []))) =
     Some ''CONTRACT_NOT_DEPLOYED_ON_NETWORK'' \<and>
   isLoaded (snd (instantiateContractAsync envNotDeployed (withStore []))) \<and>
   getError (snd (instantiateContractAsync envBreaking (withStore [convertRequestArrToObj carolArr]))) =
     Some ''UNHANDLED_ERROR'' \<and>
   isLoaded (snd (instantiateContractAsync envBreaking (withStore [convertRequestArrToObj carolArr])))"
proof -
  have w: "wrappedWeb3 (withStore rs)" for rs
    by (simp add: withStore_def)
  have a: "getNetworkIdIfExists envNotDeployed = Some ''3''"
    and b: "getNetworkIdIfExists envBreaking = Some ''1''"
    by (simp_all add: envNotDeployed_def envBreaking_def envOf_def)
  have c: "str_includes
      ''Error: ValentineRegistry has not been deployed to detected network (network/artifact mismatch)''
      ''not been deployed to detected network''"
    and d: "\<not> str_includes ''Error: Invalid JSON RPC response''
      ''not been deployed to detected network''"
    by simp_all
  from resolution_failure_kinds [OF w a tryBody_envNotDeployed, of "[]"]
    resolution_failure_kinds [OF w b tryBody_ledgerBreaking [of "Some ''1''", folded envBreaking_def],
      of "[convertRequestArrToObj carolArr]"]
    c d w [of "[]"]
  show ?thesis by (simp add: str_includes_iff)
qed

subsection \<open>C8: what an error state keeps of the store\<close>

text \<open>
  Claim C8, as the code has it. Take an attempt on a state whose transport wrapper is
  set. When no network is detected, or when the contract cannot be resolved, the store
  afterwards is the store before the attempt. Once the contract is resolved the attempt
  runs as it would from any other store: nothing of the old store is kept. When the count
  is then rejected the store ends empty; when the load stops at index \<open>j\<close>, by a
  rejected call or a requesterAddress already added, the store ends with the decoded
  entities of the indices below \<open>j\<close>; when the load completes and the demo request
  number \<open>j\<close> repeats an address, the store ends with the loaded entities and the
  demo requests before it. In each of these cases the attempt ends with an error. A boot
  without a transport leaves the store as it was.
\<close>

theorem failed_attempt_store:
  assumes "wrappedWeb3 s"
  shows
   "(getNetworkIdIfExists e = None \<longrightarrow>
       getValentineRequests (snd (instantiateContractAsync e s)) = getValentineRequests s \<and>
       getError (snd (instantiateContractAsync e s)) = Some ''DISCONNECTED_FROM_ETHEREUM_NODE'') \<and>
    (getNetworkIdIfExists e = Some n \<and> deployed e = Inl m \<longrightarrow>
       getValentineRequests (snd (instantiateContractAsync e s)) = getValentineRequests s \<and>
       hasError (snd (instantiateContractAsync e s))) \<and>
    (getNetworkIdIfExists e = Some n \<and> deployed e = Inr c \<longrightarrow>
       instantiateContractAsync e (s\<lparr>valentineRequests := rs\<rparr>) = instantiateContractAsync e s) \<and>
    (getNetworkIdIfExists e = Some n \<and> deployed e = Inr c \<and> numRequesters c = Inl m \<longrightarrow>
       getValentineRequests (snd (instantiateContractAsync e s)) = [] \<and>
       hasError (snd (instantiateContractAsync e s))) \<and>
    (getNetworkIdIfExists e = Some n \<and> deployed e = Inr c \<and> numRequesters c = Inr k \<and> j < k \<and>
     map (getRequestByIndex c) [0..<j] = map Inr arrs \<and>
     distinct (map requesterAddress (map convertRequestArrToObj arrs)) \<and>
     ((\<exists>m. getRequestByIndex c j = Inl m) \<or>
      (\<exists>a. getRequestByIndex c j = Inr a \<and>
         requesterAddress (convertRequestArrToObj a) \<in>
           requesterAddress ` set (map convertRequestArrToObj arrs))) \<longrightarrow>
       getValentineRequests (snd (instantiateContractAsync e s)) = map convertRequestArrToObj arrs \<and>
       hasError (snd (instantiateContractAsync e s))) \<and>
    (getNetworkIdIfExists e = Some n \<and> deployed e = Inr c \<and> numRequesters c = Inr k \<and>
     map (getRequestByIndex c) [0..<k] = map Inr arrs \<and> j < 10 \<and>
     distinct (map requesterAddress
        (map convertRequestArrToObj arrs @ fakeRequestsFrom e (randCalls s) j)) \<and>
     requesterAddress (fakeRequest e (randCalls s + 44 * j)) \<in>
       requesterAddress ` set (map convertRequestArrToObj arrs @ fakeRequestsFrom e (randCalls s) j) \<longrightarrow>
       getValentineRequests (snd (instantiateContractAsync e s)) =
         map convertRequestArrToObj arrs @ fakeRequestsFrom e (randCalls s) j \<and>
       hasError (snd (instantiateContractAsync e s))) \<and>
    (\<not> window_web3 e \<longrightarrow>
       getValentineRequests (snd (onPageLoadInitFireAndForgetAsync e s0)) = getValentineRequests s0 \<and>
       getError (snd (onPageLoadInitFireAndForgetAsync e s0)) = Some ''NO_WEB3_INSTANCE_FOUND'')"
proof (intro conjI impI)
  assume "getNetworkIdIfExists e = None"
  with assms show "getValentineRequests (snd (instantiateContractAsync e s)) = getValentineRequests s"
    and "getError (snd (instantiateContractAsync e s)) = Some ''DISCONNECTED_FROM_ETHEREUM_NODE''"
    by (simp_all add: instantiateContractAsync_def getValentineRequests_def getError_def)
next
  assume a: "getNetworkIdIfExists e = Some n \<and> deployed e = Inl m"
  then have "tryBody e (s\<lparr>networkId := Some n\<rparr>) = (Some (Rejected m), s\<lparr>networkId := Some n\<rparr>)"
    by (simp add: tryBody_def)
  from instantiate_failed [OF assms _ this] a
  show "getValentineRequests (snd (instantiateContractAsync e s)) = getValentineRequests s"
    and "hasError (snd (instantiateContractAsync e s))"
    by (simp_all add: getValentineRequests_def store_getAll_def)
next
  assume "getNetworkIdIfExists e = Some n \<and> deployed e = Inr c"
  with assms
  show "instantiateContractAsync e (s\<lparr>valentineRequests := rs\<rparr>) = instantiateContractAsync e s"
    by (simp add: instantiate_forgets_store)
next
  assume a: "getNetworkIdIfExists e = Some n \<and> deployed e = Inr c \<and> numRequesters c = Inl m"
  with tryBody_count_rejected [of e c m "s\<lparr>networkId := Some n\<rparr>"] obtain sf where
    "tryBody e (s\<lparr>networkId := Some n\<rparr>) = (Some (Rejected m), sf)" "valentineRequests sf = []"
    by auto
  with instantiate_failed [OF assms, of e n "Rejected m" sf] a
  show "getValentineRequests (snd (instantiateContractAsync e s)) = []"
    and "hasError (snd (instantiateContractAsync e s))"
    by simp_all
next
  assume a: "getNetworkIdIfExists e = Some n \<and> deployed e = Inr c \<and> numRequesters c = Inr k \<and> j < k \<and>
     map (getRequestByIndex c) [0..<j] = map Inr arrs \<and>
     distinct (map requesterAddress (map convertRequestArrToObj arrs)) \<and>
     ((\<exists>m. getRequestByIndex c j = Inl m) \<or>
      (\<exists>a. getRequestByIndex c j = Inr a \<and>
         requesterAddress (convertRequestArrToObj a) \<in>
           requesterAddress ` set (map convertRequestArrToObj arrs)))"
  then have "\<exists>x sf. tryBody e (s\<lparr>networkId := Some n\<rparr>) = (Some x, sf) \<and>
      valentineRequests sf = map convertRequestArrToObj arrs"
    by (intro tryBody_load_fault [of e c k j arrs]) simp_all
  then obtain x sf where "tryBody e (s\<lparr>networkId := Some n\<rparr>) = (Some x, sf)"
    "valentineRequests sf = map convertRequestArrToObj arrs" by blast
  with instantiate_failed [OF assms, of e n x sf] a
  show "getValentineRequests (snd (instantiateContractAsync e s)) = map convertRequestArrToObj arrs"
    and "hasError (snd (instantiateContractAsync e s))"
    by simp_all
next
  assume a: "getNetworkIdIfExists e = Some n \<and> deployed e = Inr c \<and> numRequesters c = Inr k \<and>
     map (getRequestByIndex c) [0..<k] = map Inr arrs \<and> j < 10 \<and>
     distinct (map requesterAddress
        (map convertRequestArrToObj arrs @ fakeRequestsFrom e (randCalls s) j)) \<and>
     requesterAddress (fakeRequest e (randCalls s + 44 * j)) \<in>
       requesterAddress ` set (map convertRequestArrToObj arrs @ fakeRequestsFrom e (randCalls s) j)"
  then have "\<exists>x sf. tryBody e (s\<lparr>networkId := Some n\<rparr>) = (Some x, sf) \<and>
      valentineRequests sf = map convertRequestArrToObj arrs
        @ fakeRequestsFrom e (randCalls (s\<lparr>networkId := Some n\<rparr>)) j"
    by (intro tryBody_demo_fault [of e c k arrs j]) simp_all
  then obtain x sf where "tryBody e (s\<lparr>networkId := Some n\<rparr>) = (Some x, sf)"
    "valentineRequests sf = map convertRequestArrToObj arrs @ fakeRequestsFrom e (randCalls s) j"
    by auto
  with instantiate_failed [OF assms, of e n x sf] a
  show "getValentineRequests (snd (instantiateContractAsync e s)) =
         map convertRequestArrToObj arrs @ fakeRequestsFrom e (randCalls s) j"
    and "hasError (snd (instantiateContractAsync e s))"
    by simp_all
next
  assume "\<not> window_web3 e"
  then show "getValentineRequests (snd (onPageLoadInitFireAndForgetAsync e s0)) = getValentineRequests s0"
    and "getError (snd (onPageLoadInitFireAndForgetAsync e s0)) = Some ''NO_WEB3_INSTANCE_FOUND''"
    by (simp_all add: onPageLoadInitFireAndForgetAsync_def getValentineRequests_def getError_def)
qed

text \<open>
  A store that holds one request. A load that fails at its second reply ends with the
  one entity it had added; a failed resolution and a missing network keep the store as
  it was.
\<close>

theorem failed_attempt_store_witness:
  "wrappedWeb3 (withStore [convertRequestArrToObj carolArr]) \<and>
   getValentineRequests
     (snd (instantiateContractAsync envBreaking (withStore [convertRequestArrToObj carolArr]))) =
     [convertRequestArrToObj aliceArr] \<and>
   hasError (snd (instantiateContractAsync envBreaking (withStore [convertRequestArrToObj carolArr]))) \<and>
   getValentineRequests
     (snd (instantiateContractAsync envNotDeployed (withStore [convertRequestArrToObj carolArr]))) =
     [convertRequestArrToObj carolArr] \<and>
   getValentineRequests
     (snd (instantiateContractAsync envDisconnected (withStore [convertRequestArrToObj carolArr]))) =
     [convertRequestArrToObj carolArr]"
proof -
  let ?s = "withStore [convertRequestArrToObj carolArr]"
  have w: "wrappedWeb3 ?s"
    by (simp add: withStore_def)
  have st: "getValentineRequests ?s = [convertRequestArrToObj carolArr]"
    by (simp add: getValentineRequests_def store_getAll_def withStore_def)
  have b: "getNetworkIdIfExists envBreaking = Some ''1''" "deployed envBreaking = Inr ledgerBreaking"
    and a: "getNetworkIdIfExists envNotDeployed = Some ''3''"
      "deployed envNotDeployed = Inl ''Error: ValentineRegistry has not been deployed to detected network (network/artifact mismatch)''"
    and d: "getNetworkIdIfExists envDisconnected = None"
    by (simp_all add: envNotDeployed_def envBreaking_def envDisconnected_def envOf_def)
  have l: "numRequesters ledgerBreaking = Inr 2" "(1::nat) < 2"
    "map (getRequestByIndex ledgerBreaking) [0..<1] = map Inr [aliceArr]"
    "distinct (map requesterAddress (map convertRequestArrToObj [aliceArr]))"
    "\<exists>m. getRequestByIndex ledgerBreaking 1 = Inl m"
    by (simp_all add: ledgerBreaking_def)
  from failed_attempt_store [OF w, where e = envBreaking and n = "''1''" and c = ledgerBreaking
      and k = 2 and j = 1 and arrs = "[aliceArr]"] b l
  have 1: "getValentineRequests (snd (instantiateContractAsync envBreaking ?s)) =
       [convertRequestArrToObj aliceArr]"
    "hasError (snd (instantiateContractAsync envBreaking ?s))"
    by simp_all
  from failed_attempt_store [OF w, where e = envNotDeployed and n = "''3''"
      and m = "''Error: ValentineRegistry has not been deployed to detected network (network/artifact mismatch)''"] a
  have 2: "getValentineRequests (snd (instantiateContractAsync envNotDeployed ?s)) = getValentineRequests ?s"
    by simp
  from failed_attempt_store [OF w, where e = envDisconnected] d
  have 3: "getValentineRequests (snd (instantiateContractAsync envDisconnected ?s)) = getValentineRequests ?s"
    by simp
  from w 1 2 3 st show ?thesis by simp
qed

text \<open>
  Claim C8 as the specification words it fails. A boot on network \<^verbatim>\<open>1\<close> ends
  without error, loaded, with ten entities in the store. A change to network \<^verbatim>\<open>2\<close>,
  whose ledger rejects its second reply, ends with UNHANDLED_ERROR and with the one
  entity of the failed load in the store: the ten that were loaded before are gone.
\<close>

theorem failed_reload_drops_loaded_entities:
  "hasError (snd (onPageLoadInitFireAndForgetAsync envReady constructed)) = False \<and>
   isLoaded (snd (onPageLoadInitFireAndForgetAsync envReady constructed)) \<and>
   getValentineRequests (snd (onPageLoadInitFireAndForgetAsync envReady constructed)) =
     fakeRequestsFrom envReady 0 10 \<and>
   length (fakeRequestsFrom envReady 0 10) = 10 \<and>
   fst (networkConnectionChangedAsync envBreakingOn2 (Some ''2'')
          (snd (onPageLoadInitFireAndForgetAsync envReady constructed))) = None \<and>
   getError (snd (networkConnectionChangedAsync envBreakingOn2 (Some ''2'')
          (snd (onPageLoadInitFireAndForgetAsync envReady constructed)))) = Some ''UNHANDLED_ERROR'' \<and>
   getValentineRequests (snd (networkConnectionChangedAsync envBreakingOn2 (Some ''2'')
          (snd (onPageLoadInitFireAndForgetAsync envReady constructed)))) =
     [convertRequestArrToObj aliceArr] \<and>
   fakeRequest envReady 0 \<in>
     set (getValentineRequests (snd (onPageLoadInitFireAndForgetAsync envReady constructed))) \<and>
   fakeRequest envReady 0 \<notin>
     set (getValentineRequests (snd (networkConnectionChangedAsync envBreakingOn2 (Some ''2'')
          (snd (onPageLoadInitFireAndForgetAsync envReady constructed)))))"
proof -
  let ?b = "snd (onPageLoadInitFireAndForgetAsync envReady constructed)"
  have w: "wrappedWeb3 ?b" and n: "networkId ?b \<noteq> Some ''2''"
    by (simp_all add: boot_ready)
  have b: "hasError ?b = False" "isLoaded ?b"
    "getValentineRequests ?b = fakeRequestsFrom envReady 0 10"
    unfolding boot_ready
    by (simp_all add: hasError_def getValentineRequests_def store_getAll_def constructed_def)
  have len: "length (fakeRequestsFrom envReady 0 10) = 10"
    by (simp add: fakeRequestsFrom_def)
  have mem: "fakeRequest envReady 0 \<in> set (fakeRequestsFrom envReady 0 10)"
    by (simp add: fakeRequestsFrom_def upt_10)
  have "requesterAddress (fakeRequest envReady 0) \<noteq> requesterAddress (convertRequestArrToObj aliceArr)"
    by (simp add: fakeRequest_def fakeAddress_def envReady_def envOf_def aliceArr_def
        NULL_ADDRESS_def letters_def)
  then have ne: "fakeRequest envReady 0 \<noteq> convertRequestArrToObj aliceArr"
    by auto
  from reload_breaking [OF w n] b len mem ne show ?thesis
    by (simp add: getError_def getValentineRequests_def store_getAll_def)
qed

subsection \<open>C9: looking one request up\<close>

text \<open>
  Claim C9. For a valid address that the ledger answers, \<^verbatim>\<open>getRequestIfExistsAsync\<close>
  returns null exactly when the decoded reply is the placeholder (three empty texts, not
  accepted, both addresses the null address) and the decoded reply otherwise; the
  placeholder is never returned.
\<close>

theorem lookup_hides_placeholder:
  assumes "wrappedWeb3 s" and "isAddress e (toLowerCase a)"
    and "valentineRegistry s = Some c"
    and "getRequestByRequesterAddress c a = Inr requestArr"
  shows "getRequestIfExistsAsync e s a =
      Inr (if convertRequestArrToObj requestArr =
                \<lparr> requesterName = '''', valentineName = '''', customMessage = '''',
                  wasAccepted = False, valentineAddress = NULL_ADDRESS,
                  requesterAddress = NULL_ADDRESS \<rparr>
           then None else Some (convertRequestArrToObj requestArr)) \<and>
    getRequestIfExistsAsync e s a \<noteq>
      Inr (Some \<lparr> requesterName = '''', valentineName = '''', customMessage = '''',
                  wasAccepted = False, valentineAddress = NULL_ADDRESS,
                  requesterAddress = NULL_ADDRESS \<rparr>)"
  using assms
  by (simp add: getRequestIfExistsAsync_def isValidAddress_def doesRequestExist_def
      emptyRequestArr_def)

text \<open>
  An address the ledger knows, and one it does not.
\<close>

theorem lookup_hides_placeholder_witness:
  "getRequestIfExistsAsync envReady ((withStore [])\<lparr>valentineRegistry := Some ledgerEmpty\<rparr>)
     ''0x00000000000000000000000000000000000000a1'' = Inr (Some (convertRequestArrToObj aliceArr)) \<and>
   getRequestIfExistsAsync envReady ((withStore [])\<lparr>valentineRegistry := Some ledgerEmpty\<rparr>)
     ''0x00000000000000000000000000000000000000B2'' = Inr None"
proof -
  let ?s = "(withStore [])\<lparr>valentineRegistry := Some ledgerEmpty\<rparr>"
  have w: "wrappedWeb3 ?s" and r: "valentineRegistry ?s = Some ledgerEmpty"
    by (simp_all add: withStore_def)
  have v: "isAddress envReady (toLowerCase a) = (length a = 42)" for a
    by (simp add: envReady_def envOf_def toLowerCase_def)
  have a1: "getRequestByRequesterAddress ledgerEmpty ''0x00000000000000000000000000000000000000a1'' = Inr aliceArr"
    and a2: "getRequestByRequesterAddress ledgerEmpty ''0x00000000000000000000000000000000000000B2'' = Inr emptyRequestArr"
    by (simp_all add: ledgerEmpty_def lookupArr_def)
  have v1: "isAddress envReady (toLowerCase ''0x00000000000000000000000000000000000000a1'')"
    and v2: "isAddress envReady (toLowerCase ''0x00000000000000000000000000000000000000B2'')"
    unfolding v by simp_all
  from lookup_hides_placeholder [OF w v1 r a1] lookup_hides_placeholder [OF w v2 r a2]
  show ?thesis
    by (simp add: aliceArr_def emptyRequestArr_def NULL_ADDRESS_def)
qed

subsection \<open>C10: a notification without a token\<close>

subsection \<open>C10: a notification without a token\<close>

text \<open>
  Claim C10. A notification with a null token sets the error to
  DISCONNECTED_FROM_ETHEREUM_NODE, forgets the network token and calls
  \<^verbatim>\<open>_onUpdatedFn\<close> once; the rest of the state, with the store, the active watchers and
  the remembered filters, is unchanged, and the handler returns.
\<close>

theorem null_token_marks_disconnected:
  "networkConnectionChangedAsync e None s =
     (None, s\<lparr>err := Some ''DISCONNECTED_FROM_ETHEREUM_NODE'', networkId := None,
              trace := trace s @ [OnUpdatedFn]\<rparr>) \<and>
   getError (snd (networkConnectionChangedAsync e None s)) =
     Some ''DISCONNECTED_FROM_ETHEREUM_NODE'' \<and>
   networkId (snd (networkConnectionChangedAsync e None s)) = None \<and>
   trace (snd (networkConnectionChangedAsync e None s)) = trace s @ [OnUpdatedFn] \<and>
   getValentineRequests (snd (networkConnectionChangedAsync e None s)) = getValentineRequests s \<and>
   activeWatchers (snd (networkConnectionChangedAsync e None s)) = activeWatchers s \<and>
   logValentineRequestCreated (snd (networkConnectionChangedAsync e None s)) =
     logValentineRequestCreated s \<and>
   logRequestAccepted (snd (networkConnectionChangedAsync e None s)) = logRequestAccepted s"
  by (simp add: networkConnectionChangedAsync_def getValentineRequests_def getError_def)

end
